theory Spec2Isabelle
  imports Complex_Main "HOL-Library.Multiset"
begin

section \<open>JavaScript values and numbers\<close>

text \<open>
  A JavaScript \<^verbatim>\<open>number\<close> is a finite value, one of the two infinities, or NaN.
  Finite values are modelled as exact rationals: the rounding of IEEE doubles, overflow
  to infinity and the sign of zero are not modelled. The special values are, because
  the guards of the source (\<^verbatim>\<open>typeof\<close>, \<^verbatim>\<open>isNaN\<close>, \<^verbatim>\<open>x || 0\<close>) tell them apart.
\<close>

datatype jsnum = Fin rat | PosInf | NegInf | NaN

text \<open>
  The values a raw spreadsheet cell, a function argument or an object property can hold.
  A \<^verbatim>\<open>Date\<close> object carries its time value in milliseconds; \<open>None\<close> is the
  time value NaN of an Invalid Date.
\<close>

datatype jsval =
    JUndefined
  | JNull
  | JBool bool
  | JNum jsnum
  | JStr string
  | JDate "int option"

definition isNumber :: "jsval \<Rightarrow> bool" where
  \<comment> \<open>\<^verbatim>\<open>typeof v === 'number'\<close>\<close>
  "isNumber v = (case v of JNum _ \<Rightarrow> True | _ \<Rightarrow> False)"

definition truthy :: "jsval \<Rightarrow> bool" where
  \<comment> \<open>ToBoolean\<close>
  "truthy v =
     (case v of
        JUndefined \<Rightarrow> False
      | JNull \<Rightarrow> False
      | JBool b \<Rightarrow> b
      | JNum n \<Rightarrow> n \<noteq> NaN \<and> n \<noteq> Fin 0
      | JStr s \<Rightarrow> s \<noteq> []
      | JDate _ \<Rightarrow> True)"

fun jsNeg :: "jsnum \<Rightarrow> jsnum" where
  "jsNeg (Fin x) = Fin (- x)"
| "jsNeg PosInf = NegInf"
| "jsNeg NegInf = PosInf"
| "jsNeg NaN = NaN"

fun jsAdd :: "jsnum \<Rightarrow> jsnum \<Rightarrow> jsnum" where
  "jsAdd NaN _ = NaN"
| "jsAdd _ NaN = NaN"
| "jsAdd (Fin x) (Fin y) = Fin (x + y)"
| "jsAdd PosInf NegInf = NaN"
| "jsAdd NegInf PosInf = NaN"
| "jsAdd PosInf _ = PosInf"
| "jsAdd NegInf _ = NegInf"
| "jsAdd (Fin _) b = b"

definition jsSub :: "jsnum \<Rightarrow> jsnum \<Rightarrow> jsnum" where
  "jsSub a b = jsAdd a (jsNeg b)"

definition jsSign :: "jsnum \<Rightarrow> int" where
  \<comment> \<open>the sign of a number that is not NaN\<close>
  "jsSign a =
     (case a of Fin x \<Rightarrow> (if x < 0 then - 1 else if x = 0 then 0 else 1)
      | PosInf \<Rightarrow> 1 | NegInf \<Rightarrow> - 1 | NaN \<Rightarrow> 0)"

definition infOfSign :: "int \<Rightarrow> jsnum" where
  "infOfSign s = (if s = 0 then NaN else if 0 < s then PosInf else NegInf)"

fun jsMul :: "jsnum \<Rightarrow> jsnum \<Rightarrow> jsnum" where
  "jsMul NaN _ = NaN"
| "jsMul _ NaN = NaN"
| "jsMul (Fin x) (Fin y) = Fin (x * y)"
| "jsMul a b = infOfSign (jsSign a * jsSign b)"

fun jsDiv :: "jsnum \<Rightarrow> jsnum \<Rightarrow> jsnum" where
  "jsDiv NaN _ = NaN"
| "jsDiv _ NaN = NaN"
| "jsDiv (Fin x) (Fin y) = (if y = 0 then infOfSign (jsSign (Fin x)) else Fin (x / y))"
| "jsDiv (Fin x) _ = Fin 0"
| "jsDiv a (Fin y) = infOfSign (jsSign a * (if y < 0 then - 1 else 1))"
| "jsDiv _ _ = NaN"

fun jsAbs :: "jsnum \<Rightarrow> jsnum" where
  \<comment> \<open>\<^verbatim>\<open>Math.abs\<close>\<close>
  "jsAbs (Fin x) = Fin \<bar>x\<bar>"
| "jsAbs NaN = NaN"
| "jsAbs _ = PosInf"

fun jsGreater :: "jsnum \<Rightarrow> jsnum \<Rightarrow> bool" where
  \<comment> \<open>\<^verbatim>\<open>a > b\<close>; every comparison with NaN is false\<close>
  "jsGreater NaN _ = False"
| "jsGreater _ NaN = False"
| "jsGreater (Fin x) (Fin y) = (y < x)"
| "jsGreater PosInf b = (b \<noteq> PosInf)"
| "jsGreater NegInf _ = False"
| "jsGreater (Fin _) b = (b = NegInf)"

section \<open>Number formatting (utils/string.ts)\<close>

text \<open>
  \<^verbatim>\<open>value.toLocaleString('id-ID', { maximumFractionDigits: d })\<close> is a function of the
  platform, not of the repository. The model follows ECMA-402 with the CLDR data of the
  Indonesian locale: decimal style, no minimum of fraction digits (so no trailing zero is
  printed), rounding half away from zero at \<open>d\<close> fraction digits, groups of three integer
  digits separated by a full stop, and a comma before the fraction.
\<close>

definition digitChar :: "nat \<Rightarrow> char" where
  "digitChar d = char_of (48 + d)"

fun natDigits :: "nat \<Rightarrow> string" where
  "natDigits n = (if n < 10 then [digitChar n] else natDigits (n div 10) @ [digitChar (n mod 10)])"

declare natDigits.simps [simp del]

fun padDigits :: "nat \<Rightarrow> nat \<Rightarrow> string" where
  \<comment> \<open>the last \<open>k\<close> decimal digits of \<open>n\<close>, with leading zeros\<close>
  "padDigits 0 n = []"
| "padDigits (Suc k) n = padDigits k (n div 10) @ [digitChar (n mod 10)]"

fun groupThousands :: "nat \<Rightarrow> string" where
  "groupThousands n =
     (if n < 1000 then natDigits n
      else groupThousands (n div 1000) @ ''.'' @ padDigits 3 (n mod 1000))"

declare groupThousands.simps [simp del]

definition stripZeros :: "string \<Rightarrow> string" where
  "stripZeros s = rev (dropWhile (\<lambda>c. c = CHR ''0'') (rev s))"

definition infinitySymbol :: string where
  \<comment> \<open>U+221E in UTF-8\<close>
  "infinitySymbol = [char_of (0xE2::nat), char_of (0x88::nat), char_of (0x9E::nat)]"

definition formatFinite :: "rat \<Rightarrow> nat \<Rightarrow> string" where
  "formatFinite x d =
     (let scaled = nat \<lfloor>\<bar>x\<bar> * 10 ^ d + 1 / 2\<rfloor>;
          whole = scaled div 10 ^ d;
          frac = stripZeros (padDigits d (scaled mod 10 ^ d))
      in (if x < 0 then ''-'' else '''') @ groupThousands whole
           @ (if frac = [] then [] else '','' @ frac))"

definition toLocaleString :: "jsnum \<Rightarrow> nat \<Rightarrow> string" where
  "toLocaleString n d =
     (case n of
        Fin x \<Rightarrow> formatFinite x d
      | PosInf \<Rightarrow> infinitySymbol
      | NegInf \<Rightarrow> ''-'' @ infinitySymbol
      | NaN \<Rightarrow> ''NaN'')"

definition formatNumber :: "jsval \<Rightarrow> nat \<Rightarrow> string" where
  "formatNumber v fractionDigits =
     (case v of
        JNum n \<Rightarrow> (if n = NaN then ''0'' else toLocaleString n fractionDigits)
      | _ \<Rightarrow> ''0'')"

section \<open>Period comparison (analysis.ts)\<close>

record ComparisonState =
  upOrDown :: string
  percentage :: string
  plusOrMinus :: string
  difference :: string

definition upArrow :: string where
  \<comment> \<open>U+25B2 in UTF-8\<close>
  "upArrow = [char_of (0xE2::nat), char_of (0x96::nat), char_of (0xB2::nat)]"

definition downArrow :: string where
  \<comment> \<open>U+25BC in UTF-8\<close>
  "downArrow = [char_of (0xE2::nat), char_of (0x96::nat), char_of (0xBC::nat)]"

definition notApplicable :: ComparisonState where
  "notApplicable =
     \<lparr>upOrDown = '''', percentage = ''N/A'', plusOrMinus = '''', difference = ''N/A''\<rparr>"

definition toNum :: "jsval \<Rightarrow> jsnum" where
  \<comment> \<open>the number held by a value of type number (the only values the arithmetic
     below is reached with)\<close>
  "toNum v = (case v of JNum n \<Rightarrow> n | _ \<Rightarrow> NaN)"

definition calculateComparison :: "jsval \<Rightarrow> jsval \<Rightarrow> ComparisonState" where
  "calculateComparison current previous =
     (if previous = JNum (Fin 0) \<or> \<not> isNumber current \<or> \<not> isNumber previous
      then notApplicable
      else
        (let diff = jsSub (toNum current) (toNum previous);
             growth = jsMul (jsDiv diff (toNum previous)) (Fin 100)
         in \<lparr>upOrDown = (if jsGreater growth (Fin 0) then upArrow else downArrow),
             percentage = formatNumber (JNum (jsAbs growth)) 1,
             plusOrMinus = (if jsGreater growth (Fin 0) then ''+'' else ''-''),
             difference = formatNumber (JNum (jsAbs diff)) 0\<rparr>))"

definition isFiniteNumber :: "jsval \<Rightarrow> bool" where
  \<comment> \<open>the specification's "finite number": a number that is neither NaN nor infinite\<close>
  "isFiniteNumber v = (case v of JNum (Fin _) \<Rightarrow> True | _ \<Rightarrow> False)"

section \<open>Sales rows and aggregation (main.ts)\<close>

text \<open>
  A processed sales row, as the analysis functions read it. \<open>SalesDateIn\<close> is the time
  value of a valid \<^verbatim>\<open>Date\<close> in milliseconds; the numeric fields are finite numbers.
  \<open>CustomerName\<close> is \<open>None\<close> where the property is absent.
\<close>

record SalesDataRow =
  SalesDateIn :: int
  Revenue :: rat
  BillNumber :: string
  Branch :: string
  MenuCategory :: string
  Menu :: string
  Quantity :: rat
  VisitPurpose :: string
  Price :: rat
  CustomerName :: "string option"

text \<open>
  A plain object used as a dictionary is an association list in insertion order:
  assigning to a key that exists replaces its value in place, assigning to a new key
  appends it. JavaScript lists keys that are canonical array indices first, in ascending
  order: \<open>hourlyBills\<close>, whose keys are hours, is kept in ascending key order. Bill
  numbers, menu names and customer names of that form would be listed first as well; the
  theorems about these objects do not depend on the order of the listing.
\<close>

fun objSet :: "'k \<Rightarrow> 'v \<Rightarrow> ('k \<times> 'v) list \<Rightarrow> ('k \<times> 'v) list" where
  "objSet k v [] = [(k, v)]"
| "objSet k v ((k', v') # ps) = (if k = k' then (k, v) # ps else (k', v') # objSet k v ps)"

definition orZero :: "rat option \<Rightarrow> rat" where
  \<comment> \<open>\<^verbatim>\<open>x || 0\<close> for a finite number or undefined\<close>
  "orZero x = (case x of None \<Rightarrow> 0 | Some v \<Rightarrow> v)"

definition sumBy :: "(SalesDataRow \<Rightarrow> 'k) \<Rightarrow> SalesDataRow list \<Rightarrow> ('k \<times> rat) list" where
  \<comment> \<open>\<^verbatim>\<open>data.reduce((acc, d) => { acc[key] = (acc[key] || 0) + d.Revenue; return acc }, {})\<close>\<close>
  "sumBy bucketFn data =
     foldl (\<lambda>acc d. objSet (bucketFn d) (orZero (map_of acc (bucketFn d)) + Revenue d) acc) [] data"



definition billTotals :: "SalesDataRow list \<Rightarrow> rat list" where
  \<comment> \<open>\<^verbatim>\<open>Object.values(data.reduce(...))\<close>, keyed by the bill number\<close>
  "billTotals data = map snd (sumBy BillNumber data)"

definition atOrZero :: "rat list \<Rightarrow> int \<Rightarrow> rat" where
  \<comment> \<open>\<^verbatim>\<open>xs[i] || 0\<close>: an index out of range reads undefined\<close>
  "atOrZero xs i = (if 0 \<le> i \<and> i < int (length xs) then xs ! nat i else 0)"

definition quartile :: "rat list \<Rightarrow> rat \<Rightarrow> rat" where
  \<comment> \<open>\<^verbatim>\<open>totals[Math.floor(totals.length * p)] || 0\<close>, with \<open>p\<close> 0.25 or 0.75 in the source\<close>
  "quartile totals p = atOrZero totals \<lfloor>rat_of_nat (length totals) * p\<rfloor>"

definition percentileOfSortedBillTotals :: "SalesDataRow list \<Rightarrow> rat \<Rightarrow> rat" where
  \<comment> \<open>the grouping, the ascending sort and the indexing as generatePeakHourAnalysis
     writes them in line; generateCustomerSpendingInsights computes the same after its
     two early returns\<close>
  "percentileOfSortedBillTotals data p = quartile (sort (billTotals data)) p"

record SpendingInsights =
  highestSingleTransaction :: rat
  avgSpendLower :: rat
  avgSpendUpper :: rat

definition generateCustomerSpendingInsights :: "SalesDataRow list \<Rightarrow> SpendingInsights option" where
  \<comment> \<open>the spending range of the function; \<open>None\<close> is its early return\<close>
  "generateCustomerSpendingInsights data =
     (if data = [] then None
      else if billTotals data = [] then None
      else Some \<lparr>highestSingleTransaction = Max (set (billTotals data)),
                 avgSpendLower = percentileOfSortedBillTotals data (1 / 4),
                 avgSpendUpper = percentileOfSortedBillTotals data (3 / 4)\<rparr>)"

subsection \<open>Peak hour\<close>

definition getHours :: "int \<Rightarrow> int \<Rightarrow> nat" where
  \<comment> \<open>the hour of the local time; \<open>offset\<close> is local time minus UTC in milliseconds\<close>
  "getHours offset t = nat (((t + offset) div 3600000) mod 24)"

definition setAdd :: "'a \<Rightarrow> 'a list \<Rightarrow> 'a list" where
  \<comment> \<open>\<^verbatim>\<open>Set.prototype.add\<close>: a set is the list of its members in insertion order\<close>
  "setAdd x s = (if x \<in> set s then s else s @ [x])"

fun addHourBill :: "nat \<Rightarrow> string \<Rightarrow> (nat \<times> string list) list \<Rightarrow> (nat \<times> string list) list" where
  "addHourBill h b [] = [(h, [b])]"
| "addHourBill h b ((h', s) # rest) =
     (if h = h' then (h', setAdd b s) # rest
      else if h < h' then (h, [b]) # (h', s) # rest
      else (h', s) # addHourBill h b rest)"

definition hourlyBills :: "int \<Rightarrow> SalesDataRow list \<Rightarrow> (nat \<times> string list) list" where
  "hourlyBills offset data =
     foldl (\<lambda>acc d. addHourBill (getHours offset (SalesDateIn d)) (BillNumber d) acc) [] data"

definition hourlyTraffic :: "int \<Rightarrow> SalesDataRow list \<Rightarrow> (nat \<times> nat) list" where
  \<comment> \<open>\<^verbatim>\<open>Object.entries(hourlyBills).map(([hour, bills]) => ({ hour, count: bills.size }))\<close>\<close>
  "hourlyTraffic offset data = map (\<lambda>(hour, bills). (hour, length bills)) (hourlyBills offset data)"

definition peakHour :: "int \<Rightarrow> SalesDataRow list \<Rightarrow> nat" where
  \<comment> \<open>\<^verbatim>\<open>hourlyTraffic.sort((a, b) => b.count - a.count)[0]?.hour || 12\<close>; the sort is stable\<close>
  "peakHour offset data =
     (case sort_key (\<lambda>(hour, cnt). - int cnt) (hourlyTraffic offset data) of
        [] \<Rightarrow> 12
      | (hour, cnt) # _ \<Rightarrow> (if hour = 0 then 12 else hour))"

text \<open>
  The histogram the peak hour is read from: the number of distinct bills with a row in
  hour \<open>h\<close>.
\<close>

definition billsAt :: "int \<Rightarrow> SalesDataRow list \<Rightarrow> nat \<Rightarrow> nat" where
  "billsAt offset data h =
     card (BillNumber ` {d \<in> set data. getHours offset (SalesDateIn d) = h})"

record PeakHourAnalysis =
  peakHourStart :: nat
  peakHourEnd :: nat
  peakHourData :: "SalesDataRow list"
  minCheck :: rat
  maxCheck :: rat

definition generatePeakHourAnalysis :: "int \<Rightarrow> SalesDataRow list \<Rightarrow> PeakHourAnalysis option" where
  \<comment> \<open>the peak window, its rows and its range of checks (the popular menus of the window
     are left out); \<open>None\<close> is the early return on empty data\<close>
  "generatePeakHourAnalysis offset data =
     (if data = [] then None
      else
        (let start = peakHour offset data;
             stop = start + 2;
             inPeak = filter (\<lambda>d. getHours offset (SalesDateIn d) \<ge> start
                                 \<and> getHours offset (SalesDateIn d) < stop) data
         in Some \<lparr>peakHourStart = start, peakHourEnd = stop, peakHourData = inPeak,
                    minCheck = percentileOfSortedBillTotals inPeak (1 / 4),
                    maxCheck = percentileOfSortedBillTotals inPeak (3 / 4)\<rparr>))"

subsection \<open>Product quadrants\<close>











subsection \<open>Customer segments\<close>

record CustomerProfile =
  customer :: string
  bills :: "string list"
  firstSeen :: int
  totalSpend :: rat

record CustomerSegments =
  newCustomers :: "CustomerProfile list"
  loyalCustomers :: "CustomerProfile list"
  highSpenders :: "CustomerProfile list"

definition rowsOf :: "SalesDataRow list \<Rightarrow> string \<Rightarrow> SalesDataRow set" where
  \<comment> \<open>the rows of a customer\<close>
  "rowsOf data n = {d \<in> set data. CustomerName d = Some n}"

definition named :: "SalesDataRow \<Rightarrow> bool" where
  \<comment> \<open>\<^verbatim>\<open>d['Customer Name']\<close> is truthy\<close>
  "named d = (case CustomerName d of None \<Rightarrow> False | Some n \<Rightarrow> n \<noteq> [])"

definition addToProfile :: "(string \<times> CustomerProfile) list \<Rightarrow> SalesDataRow \<Rightarrow> (string \<times> CustomerProfile) list" where
  \<comment> \<open>the callback of \<^verbatim>\<open>namedData.reduce\<close>; only rows with a customer name reach it\<close>
  "addToProfile acc d =
     (let n = the (CustomerName d);
          p = (case map_of acc n of
                 None \<Rightarrow> \<lparr>customer = n, bills = [], firstSeen = SalesDateIn d, totalSpend = 0\<rparr>
               | Some p \<Rightarrow> p);
          p1 = p\<lparr>bills := setAdd (BillNumber d) (bills p), totalSpend := totalSpend p + Revenue d\<rparr>;
          p2 = (if SalesDateIn d < firstSeen p1 then p1\<lparr>firstSeen := SalesDateIn d\<rparr> else p1)
      in objSet n p2 acc)"

definition customerProfiles :: "SalesDataRow list \<Rightarrow> (string \<times> CustomerProfile) list" where
  "customerProfiles namedData = foldl addToProfile [] namedData"

definition avgSpend :: "CustomerProfile \<Rightarrow> rat" where
  "avgSpend p = totalSpend p / rat_of_nat (length (bills p))"

definition generateCustomerAnalysisInsights ::
  "SalesDataRow list \<Rightarrow> SalesDataRow list \<Rightarrow> int \<Rightarrow> int \<Rightarrow> CustomerSegments option" where
  \<comment> \<open>the three segments; \<open>None\<close> is the early return when no row has a customer name.
     The threshold \<open>spendings ! k\<close> is read only when there is an active profile, and then
     \<open>k\<close> is in range.\<close>
  "generateCustomerAnalysisInsights currentData allData periodStart periodEnd =
     (let namedData = filter named allData
      in if namedData = [] then None
         else
           (let profiles = map snd (customerProfiles namedData);
                currentCustomerNames = set (map CustomerName currentData);
                activeProfiles = filter (\<lambda>p. Some (customer p) \<in> currentCustomerNames) profiles;
                spendings = sort (map avgSpend activeProfiles);
                k = nat \<lfloor>rat_of_nat (length spendings) * (4 / 5)\<rfloor>
            in Some \<lparr>newCustomers =
                        filter (\<lambda>p. firstSeen p \<ge> periodStart \<and> firstSeen p \<le> periodEnd) activeProfiles,
                      loyalCustomers = filter (\<lambda>p. length (bills p) > 2) activeProfiles,
                      highSpenders = filter (\<lambda>p. avgSpend p \<ge> spendings ! k) activeProfiles\<rparr>))"

section \<open>The compiled view and its cache (main.ts)\<close>

text \<open>
  What \<^verbatim>\<open>getCachedData\<close> resolves to: \<open>None\<close> is \<^verbatim>\<open>null\<close>. A cache written by an older
  version has no \<^verbatim>\<open>lastTransactionDate\<close> that is a \<^verbatim>\<open>Date\<close>: \<open>lastTransactionDate = None\<close>.
\<close>

record CachedResult =
  cachedData :: "SalesDataRow list"
  uploadCount :: nat
  timestamp :: int
  lastTransactionDate :: "int option"

text \<open>
  The remote store as the handler reads it: the number of upload documents, the number
  the count query of the user's bills answers, and the user's bill documents in the order
  of \<^verbatim>\<open>orderBy('Sales Date In')\<close>. Calls to the store are modelled as succeeding; a
  rejected call ends in the handler's \<^verbatim>\<open>catch\<close>.
\<close>

record Remote =
  uploads :: nat
  billCount :: nat
  billDocs :: "SalesDataRow list"

record Outcome =
  finalData :: "SalesDataRow list option"
  pageFetches :: nat
  cacheAfter :: "CachedResult option"

definition PAGE_SIZE :: nat where
  "PAGE_SIZE = 10000"

definition saveCompiledData :: "SalesDataRow list \<Rightarrow> nat \<Rightarrow> int \<Rightarrow> CachedResult" where
  \<comment> \<open>the record the function puts under the key \<^verbatim>\<open>compiledAnalysis\<close>; \<open>now\<close> is \<^verbatim>\<open>new Date()\<close>\<close>
  "saveCompiledData rows n now =
     \<lparr>cachedData = rows, uploadCount = n, timestamp = now,
      lastTransactionDate =
        Some (foldl (\<lambda>latest item. if SalesDateIn item > latest then SalesDateIn item else latest)
                0 rows)\<rparr>"

function fetchPages :: "SalesDataRow list \<Rightarrow> nat \<Rightarrow> SalesDataRow list \<Rightarrow> nat \<Rightarrow> SalesDataRow list \<times> nat" where
  "fetchPages docs totalBills fetchedData n =
     (if length fetchedData < totalBills then
        (let page = take PAGE_SIZE (drop (length fetchedData) docs)
         in if page = [] then (fetchedData, Suc n)
            else fetchPages docs totalBills (fetchedData @ page) (Suc n))
      else (fetchedData, n))"
  by pat_completeness auto
termination
  by (relation "measure (\<lambda>(docs, totalBills, fetchedData, n). totalBills - length fetchedData)") auto

declare fetchPages.simps [simp del]

definition fullRefresh :: "Remote \<Rightarrow> CachedResult option \<Rightarrow> int \<Rightarrow> Outcome" where
  \<comment> \<open>case 3 of the handler\<close>
  "fullRefresh remote cachedResult now =
     (let currentUploadCount = uploads remote;
          totalBills = (if currentUploadCount > 0 then billCount remote else 0)
      in if totalBills = 0
         then \<lparr>finalData = None, pageFetches = 0, cacheAfter = cachedResult\<rparr>
         else
           (let (fetchedData, n) = fetchPages (billDocs remote) totalBills [] 0
            in \<lparr>finalData = Some fetchedData, pageFetches = n,
                cacheAfter = Some (saveCompiledData fetchedData currentUploadCount now)\<rparr>))"

definition viewCompiled :: "Remote \<Rightarrow> CachedResult option \<Rightarrow> int \<Rightarrow> Outcome" where
  \<comment> \<open>the body of the click handler of \<^verbatim>\<open>view-compiled-btn\<close>, for a signed-in user\<close>
  "viewCompiled remote cachedResult now =
     (let currentUploadCount = uploads remote
      in case cachedResult of
           None \<Rightarrow> fullRefresh remote cachedResult now
         | Some c \<Rightarrow>
             (if uploadCount c = currentUploadCount
              then \<lparr>finalData = Some (cachedData c), pageFetches = 0, cacheAfter = cachedResult\<rparr>
              else if currentUploadCount > uploadCount c \<and> lastTransactionDate c \<noteq> None
              then
                (let existingData = cachedData c;
                     lastFetchDate = the (lastTransactionDate c);
                     newData = filter (\<lambda>d. SalesDateIn d > lastFetchDate) (billDocs remote);
                     merged = existingData @ newData
                 in \<lparr>finalData = Some merged, pageFetches = 1,
                     cacheAfter = Some (saveCompiledData merged currentUploadCount now)\<rparr>)
              else fullRefresh remote cachedResult now))"

section \<open>Normalizing raw rows (main.ts, processData)\<close>

text \<open>
  A raw row is a JavaScript object: its own properties, in insertion order. Reading a
  property that is absent gives \<^verbatim>\<open>undefined\<close>.
\<close>

type_synonym rawrow = "(string \<times> jsval) list"

definition getProp :: "rawrow \<Rightarrow> string \<Rightarrow> jsval" where
  "getProp row k = (case map_of row k of None \<Rightarrow> JUndefined | Some v \<Rightarrow> v)"

definition hasOwnProperty :: "rawrow \<Rightarrow> string \<Rightarrow> bool" where
  "hasOwnProperty row k = (map_of row k \<noteq> None)"

text \<open>
  \<^verbatim>\<open>parseInt(x, 10)\<close>, \<^verbatim>\<open>parseFloat(x)\<close> and \<^verbatim>\<open>new Date(x)\<close> belong to the platform (the
  date parser is implementation defined): they are parameters. \<open>newDate\<close> answers the
  time value of the date, \<open>None\<close> for an Invalid Date.
\<close>

record platform =
  parseInt :: "jsval \<Rightarrow> jsnum"
  parseFloat :: "jsval \<Rightarrow> jsnum"
  newDate :: "jsval \<Rightarrow> int option"

datatype error =
    NoValidRows
  | MissingColumn string
  | InvalidDate jsval jsval

definition requiredColumns :: "string list" where
  "requiredColumns =
     [''Bill Number'', ''Sales Date In'', ''Branch'', ''Visit Purpose'', ''Menu Category'',
      ''Menu'', ''Qty'', ''Price'', ''Nett Sales'']"

definition allColumns :: "string list" where
  "allColumns =
     [''Bill Number'', ''Sales Date In'', ''Branch'', ''Brand'', ''Visit Purpose'',
      ''Payment Method'', ''Menu Category'', ''Menu'', ''Custom Menu Name'', ''Qty'', ''Price'',
      ''Discount'', ''Tax'', ''Nett Sales'', ''Waiter'', ''Bill Discount'', ''Service Charge'',
      ''Customer Name'', ''Regular Member Name'', ''Order Mode'', ''Table Section'',
      ''Table Name'']"

definition numOrZero :: "jsnum \<Rightarrow> jsnum" where
  \<comment> \<open>\<^verbatim>\<open>n || 0\<close> for a number: NaN and zero are falsy\<close>
  "numOrZero n = (if n = NaN \<or> n = Fin 0 then Fin 0 else n)"

definition validRow :: "rawrow \<Rightarrow> bool" where
  \<comment> \<open>\<^verbatim>\<open>row['Bill Number'] && row['Bill Number'] !== 'Bill Number'\<close>\<close>
  "validRow row =
     (truthy (getProp row ''Bill Number'') \<and> getProp row ''Bill Number'' \<noteq> JStr ''Bill Number'')"

definition buildEntry :: "platform \<Rightarrow> rawrow \<Rightarrow> rawrow" where
  "buildEntry pf rawEntry =
     (let e0 = foldl (\<lambda>entry col. objSet col (getProp rawEntry col) entry) [] allColumns;
          e1 = objSet ''Sales Date In'' (JDate (newDate pf (getProp rawEntry ''Sales Date In''))) e0;
          e2 = objSet ''Quantity'' (JNum (numOrZero (parseInt pf (getProp rawEntry ''Qty'')))) e1;
          e3 = objSet ''Revenue'' (JNum (numOrZero (parseFloat pf (getProp rawEntry ''Nett Sales'')))) e2;
          e4 = objSet ''Item Group'' (getProp rawEntry ''Menu Category'') e3
      in objSet ''Item Name'' (getProp rawEntry ''Menu'') e4)"

definition processEntry :: "platform \<Rightarrow> rawrow \<Rightarrow> error + rawrow" where
  \<comment> \<open>the callback of \<^verbatim>\<open>validJsonData.map\<close>\<close>
  "processEntry pf rawEntry =
     (let entry = buildEntry pf rawEntry
      in if getProp entry ''Sales Date In'' = JDate None
         then Inl (InvalidDate (getProp entry ''Bill Number'') (getProp rawEntry ''Sales Date In''))
         else Inr entry)"

fun mapE :: "('a \<Rightarrow> 'e + 'b) \<Rightarrow> 'a list \<Rightarrow> 'e + 'b list" where
  \<comment> \<open>\<^verbatim>\<open>Array.prototype.map\<close> with a callback that may throw: the first throw ends it\<close>
  "mapE f [] = Inr []"
| "mapE f (x # xs) =
     (case f x of
        Inl e \<Rightarrow> Inl e
      | Inr y \<Rightarrow> (case mapE f xs of Inl e \<Rightarrow> Inl e | Inr ys \<Rightarrow> Inr (y # ys)))"

definition processData :: "platform \<Rightarrow> rawrow list \<Rightarrow> error + rawrow list" where
  "processData pf jsonData =
     (let validJsonData = filter validRow jsonData
      in case validJsonData of
           [] \<Rightarrow> Inl NoValidRows
         | firstRow # _ \<Rightarrow>
             (case find (\<lambda>col. \<not> hasOwnProperty firstRow col) requiredColumns of
                Some col \<Rightarrow> Inl (MissingColumn col)
              | None \<Rightarrow> mapE (processEntry pf) validJsonData))"

text \<open>
  The failure condition as the specification states it: (a) no row has a non-empty
  transaction identifier, or (b) the first valid row is missing a required column, or
  (c) the date field of some row fails to parse.
\<close>

definition statedFailure :: "platform \<Rightarrow> rawrow list \<Rightarrow> bool" where
  "statedFailure pf rows =
     ((\<forall>r\<in>set rows. \<not> truthy (getProp r ''Bill Number''))
      \<or> (case filter validRow rows of
            [] \<Rightarrow> False
          | firstRow # _ \<Rightarrow> \<exists>col\<in>set requiredColumns. \<not> hasOwnProperty firstRow col)
      \<or> (\<exists>r\<in>set rows. newDate pf (getProp r ''Sales Date In'') = None))"

text \<open>
  A sample environment for the concrete instances. It agrees with the platform on the
  cells the instances hold: a whole number parses as itself, a date is made from a whole
  number of milliseconds, and a missing cell or a text that is neither a number nor a
  date gives NaN or an Invalid Date.
\<close>

definition samplePlatform :: platform where
  "samplePlatform =
     \<lparr>parseInt = (\<lambda>v. case v of JNum (Fin x) \<Rightarrow> Fin (of_int \<lfloor>x\<rfloor>) | _ \<Rightarrow> NaN),
      parseFloat = (\<lambda>v. case v of JNum n \<Rightarrow> n | _ \<Rightarrow> NaN),
      newDate = (\<lambda>v. case v of JNum (Fin x) \<Rightarrow> Some \<lfloor>x\<rfloor> | JDate t \<Rightarrow> t | _ \<Rightarrow> None)\<rparr>"

section \<open>Sample data\<close>

text \<open>Rows for the concrete instances of the theorems below.\<close>

definition sampleRow :: "int \<Rightarrow> rat \<Rightarrow> string \<Rightarrow> string \<Rightarrow> string option \<Rightarrow> SalesDataRow" where
  "sampleRow t r b m c =
     \<lparr>SalesDateIn = t, Revenue = r, BillNumber = b, Branch = ''Pusat'', MenuCategory = ''MAKANAN'',
      Menu = m, Quantity = 1, VisitPurpose = ''Dine In'', Price = r, CustomerName = c\<rparr>"

definition fourBills :: "SalesDataRow list" where
  \<comment> \<open>four bills with the totals 40, 20 (two lines), 10 and 30, over two days\<close>
  "fourBills =
     [sampleRow 0 40 ''d'' ''Nasi'' None, sampleRow 3600000 5 ''b'' ''Mie'' None,
      sampleRow 7200000 10 ''a'' ''Nasi'' None, sampleRow 86400000 15 ''b'' ''Teh'' None,
      sampleRow 90000000 30 ''c'' ''Mie'' None]"


definition midnightSale :: "SalesDataRow list" where
  \<comment> \<open>one bill at 00:30 local time\<close>
  "midnightSale = [sampleRow 1800000 50 ''b1'' ''Nasi'' None]"

definition aniHistory :: "SalesDataRow list" where
  \<comment> \<open>three bills of one customer, at the times 100, 200 and 300\<close>
  "aniHistory =
     [sampleRow 100 10 ''b1'' ''Nasi'' (Some ''Ani''), sampleRow 200 10 ''b2'' ''Mie'' (Some ''Ani''),
      sampleRow 300 30 ''b3'' ''Mie'' (Some ''Ani'')]"

definition aniCurrent :: "SalesDataRow list" where
  \<comment> \<open>the rows of \<open>aniHistory\<close> inside the window from 250 to 350\<close>
  "aniCurrent = filter (\<lambda>d. 250 \<le> SalesDateIn d \<and> SalesDateIn d \<le> 350) aniHistory"

definition sampleCache :: CachedResult where
  "sampleCache =
     \<lparr>cachedData = [sampleRow 10 5 ''b1'' ''Nasi'' None], uploadCount = 3, timestamp = 15,
      lastTransactionDate = Some 10\<rparr>"

definition sampleRemote :: "nat \<Rightarrow> Remote" where
  "sampleRemote n =
     \<lparr>uploads = n, billCount = 2,
      billDocs = [sampleRow 10 5 ''b1'' ''Nasi'' None, sampleRow 20 7 ''b2'' ''Mie'' None]\<rparr>"

text \<open>
  Raw rows: a complete sale (its quantity cell is not a number), a footer line with
  neither bill number nor date, and a sale without the revenue column.
\<close>

definition rawSale :: "jsval \<Rightarrow> jsval \<Rightarrow> rawrow" where
  "rawSale bill date =
     [(''Bill Number'', bill), (''Sales Date In'', date), (''Branch'', JStr ''Pusat''),
      (''Visit Purpose'', JStr ''Dine In''), (''Menu Category'', JStr ''MAKANAN''),
      (''Menu'', JStr ''Nasi''), (''Qty'', JStr ''dua''), (''Price'', JNum (Fin 5000)),
      (''Nett Sales'', JNum (Fin 10000))]"

definition footerRow :: rawrow where
  "footerRow = [(''Branch'', JStr ''Total'')]"

definition noRevenueRow :: rawrow where
  "noRevenueRow =
     [(''Bill Number'', JStr ''001''), (''Sales Date In'', JNum (Fin 1000)), (''Branch'', JStr ''Pusat''),
      (''Visit Purpose'', JStr ''Dine In''), (''Menu Category'', JStr ''MAKANAN''),
      (''Menu'', JStr ''Nasi''), (''Qty'', JNum (Fin 2)), (''Price'', JNum (Fin 5000))]"

definition mixedRows :: "rawrow list" where
  "mixedRows = [rawSale (JStr ''001'') (JNum (Fin 1000)), footerRow]"

definition headerOnly :: "rawrow list" where
  "headerOnly = [rawSale (JStr ''Bill Number'') (JNum (Fin 1000))]"

section \<open>The period comparator\<close>

lemma arrows_nonempty: "upArrow \<noteq> []" "downArrow \<noteq> []"
  by (simp_all add: upArrow_def downArrow_def)

text \<open>
  C1 (as amended). The comparator returns the sentinel (direction empty, percentage
  "N/A", sign empty, difference "N/A") exactly when \<open>previous\<close> is 0 or one of the two
  arguments is not of type number; in particular it returns the sentinel for every
  \<open>current\<close> when \<open>previous\<close> is 0. NaN and the infinities are of type number, so the
  guard does not catch them.
\<close>

theorem calculateComparison_notApplicable_iff:
  "(calculateComparison current previous = notApplicable
      \<longleftrightarrow> (previous = JNum (Fin 0) \<or> \<not> isNumber current \<or> \<not> isNumber previous))
   \<and> calculateComparison current (JNum (Fin 0)) = notApplicable"
proof -
  have "calculateComparison current previous \<noteq> notApplicable"
    if "\<not> (previous = JNum (Fin 0) \<or> \<not> isNumber current \<or> \<not> isNumber previous)"
  proof
    assume "calculateComparison current previous = notApplicable"
    then have "upOrDown (calculateComparison current previous) = upOrDown notApplicable"
      by simp
    with that show False
      by (simp add: calculateComparison_def notApplicable_def Let_def arrows_nonempty split: if_splits)
  qed
  moreover have "calculateComparison current previous = notApplicable"
    if "previous = JNum (Fin 0) \<or> \<not> isNumber current \<or> \<not> isNumber previous"
    using that by (auto simp add: calculateComparison_def)
  moreover have "calculateComparison current (JNum (Fin 0)) = notApplicable"
    by (simp add: calculateComparison_def)
  ultimately show ?thesis by blast
qed

theorem calculateComparison_notApplicable_witness:
  "calculateComparison (JNum (Fin 5)) (JNum (Fin 0)) = notApplicable
   \<and> calculateComparison JUndefined (JNum (Fin 2)) = notApplicable
   \<and> calculateComparison (JNum (Fin 5)) (JNum (Fin 2)) \<noteq> notApplicable"
  using calculateComparison_notApplicable_iff [of "JNum (Fin 5)" "JNum (Fin 0)"]
    calculateComparison_notApplicable_iff [of JUndefined "JNum (Fin 2)"]
    calculateComparison_notApplicable_iff [of "JNum (Fin 5)" "JNum (Fin 2)"]
  by (simp add: isNumber_def)

text \<open>
  C1 as stated fails where \<open>previous\<close> is NaN: NaN is not a finite number, and the
  comparator does not return the sentinel.
\<close>

theorem calculateComparison_nan_counterexample:
  "\<not> (calculateComparison (JNum (Fin 1)) (JNum NaN) = notApplicable
        \<longleftrightarrow> (JNum NaN = JNum (Fin 0) \<or> \<not> isFiniteNumber (JNum NaN)))"
  by (simp add: calculateComparison_def isNumber_def isFiniteNumber_def notApplicable_def Let_def
        arrows_nonempty)

lemma calculateComparison_nan_value:
  "calculateComparison (JNum (Fin 1)) (JNum NaN)
     = \<lparr>upOrDown = downArrow, percentage = ''0'', plusOrMinus = ''-'', difference = ''0''\<rparr>"
  by (simp add: calculateComparison_def isNumber_def toNum_def jsSub_def formatNumber_def Let_def)

text \<open>
  C6. The comparator at the claim's own example, (100, 50), prints the percentage as
  "100", not "100.0": the formatter limits the fraction digits and sets no minimum. At
  (100, -50) the current value is the greater one, and the direction is Down with sign
  "-": the direction is the sign of the growth rate, which a negative \<open>previous\<close> flips.
\<close>

theorem calculateComparison_examples:
  "calculateComparison (JNum (Fin 100)) (JNum (Fin 50))
     = \<lparr>upOrDown = upArrow, percentage = ''100'', plusOrMinus = ''+'', difference = ''50''\<rparr>
   \<and> calculateComparison (JNum (Fin 100)) (JNum (Fin (- 50)))
     = \<lparr>upOrDown = downArrow, percentage = ''300'', plusOrMinus = ''-'', difference = ''150''\<rparr>"
  by code_simp

theorem calculateComparison_examples_witness:
  "percentage (calculateComparison (JNum (Fin 100)) (JNum (Fin 50))) = ''100''
   \<and> upOrDown (calculateComparison (JNum (Fin 100)) (JNum (Fin (- 50)))) = downArrow"
  using calculateComparison_examples by simp

text \<open>
  Where \<open>previous\<close> is a positive finite number the comparator does what C6 says, up to
  the format of the two strings: the direction is Up exactly when \<open>current > previous\<close>
  (equal values give Down), the percentage is the formatted \<open>|current - previous| /
  previous * 100\<close> and the difference the formatted \<open>|current - previous|\<close>.
\<close>

lemma calculateComparison_positive_previous:
  assumes "0 < p"
  shows "calculateComparison (JNum (Fin c)) (JNum (Fin p))
     = \<lparr>upOrDown = (if p < c then upArrow else downArrow),
        percentage = formatNumber (JNum (Fin (\<bar>c - p\<bar> / p * 100))) 1,
        plusOrMinus = (if p < c then ''+'' else ''-''),
        difference = formatNumber (JNum (Fin \<bar>c - p\<bar>)) 0\<rparr>"
proof -
  have g: "0 < (c - p) / p * 100 \<longleftrightarrow> p < c"
    using assms by (simp add: zero_less_mult_iff zero_less_divide_iff)
  have a: "\<bar>(c - p) / p * 100\<bar> = \<bar>c - p\<bar> / p * 100"
    unfolding abs_mult abs_divide using assms by simp
  from assms have nz: "p \<noteq> 0" by simp
  have guard: "\<not> (JNum (Fin p) = JNum (Fin 0) \<or> \<not> isNumber (JNum (Fin c)) \<or> \<not> isNumber (JNum (Fin p)))"
    using nz by (simp add: isNumber_def)
  have diff: "jsSub (toNum (JNum (Fin c))) (toNum (JNum (Fin p))) = Fin (c - p)"
    by (simp add: jsSub_def toNum_def)
  have growth: "jsMul (jsDiv (Fin (c - p)) (toNum (JNum (Fin p)))) (Fin 100) = Fin ((c - p) / p * 100)"
    using nz by (simp add: toNum_def)
  have gt: "jsGreater (Fin ((c - p) / p * 100)) (Fin 0) = (p < c)"
    using g by (simp only: jsGreater.simps)
  have ab: "jsAbs (Fin ((c - p) / p * 100)) = Fin (\<bar>c - p\<bar> / p * 100)"
    by (simp only: jsAbs.simps a)
  have ab2: "jsAbs (Fin (c - p)) = Fin \<bar>c - p\<bar>"
    by simp
  show ?thesis
    by (simp only: calculateComparison_def guard if_False Let_def diff growth gt ab ab2)
qed

section \<open>Objects as dictionaries\<close>

lemma map_of_objSet: "map_of (objSet k v acc) k' = (if k' = k then Some v else map_of acc k')"
  by (induction acc) auto

lemma keys_objSet:
  "map fst (objSet k v acc) = (if k \<in> fst ` set acc then map fst acc else map fst acc @ [k])"
  by (induction acc) (force+)

lemma set_keys_objSet: "fst ` set (objSet k v acc) = insert k (fst ` set acc)"
proof -
  have "set (map fst (objSet k v acc)) = insert k (set (map fst acc))"
    unfolding keys_objSet by auto
  then show ?thesis by simp
qed

lemma distinct_objSet: "distinct (map fst acc) \<Longrightarrow> distinct (map fst (objSet k v acc))"
  by (simp add: keys_objSet)


lemma alist_values:
  "distinct (map fst xs) \<Longrightarrow> map snd xs = map (\<lambda>k. the (map_of xs k)) (map fst xs)"
proof (induction xs)
  case Nil
  then show ?case by simp
next
  case (Cons x xs)
  obtain k v where x: "x = (k, v)" by (cases x)
  from Cons.prems x have fresh: "k \<notin> set (map fst xs)" and d: "distinct (map fst xs)"
    by simp_all
  have "map (\<lambda>k'. the (map_of (x # xs) k')) (map fst xs) = map (\<lambda>k'. the (map_of xs k')) (map fst xs)"
  proof (rule map_cong [OF refl])
    fix k' assume "k' \<in> set (map fst xs)"
    with fresh have "k' \<noteq> k" by blast
    then show "the (map_of (x # xs) k') = the (map_of xs k')" by (simp add: x)
  qed
  with Cons.IH [OF d] show ?case by (simp add: x)
qed

section \<open>Bucketing\<close>

lemma sumBy_snoc:
  "sumBy f (data @ [d]) = objSet (f d) (orZero (map_of (sumBy f data) (f d)) + Revenue d) (sumBy f data)"
  by (simp add: sumBy_def)

lemma sumBy_Nil: "sumBy f [] = []"
  by (simp add: sumBy_def)


lemma distinct_sumBy: "distinct (map fst (sumBy f data))"
  by (induction data rule: rev_induct) (simp_all add: sumBy_Nil sumBy_snoc distinct_objSet)

lemma keys_sumBy: "set (map fst (sumBy f data)) = f ` set data"
proof (induction data rule: rev_induct)
  case Nil
  then show ?case by (simp add: sumBy_Nil)
next
  case (snoc d data)
  have "set (map fst (sumBy f (data @ [d]))) = insert (f d) (set (map fst (sumBy f data)))"
    unfolding sumBy_snoc keys_objSet by auto
  with snoc show ?case by simp
qed

lemma filter_no_key: "k \<notin> f ` set data \<Longrightarrow> filter (\<lambda>d. f d = k) data = []"
  by (auto simp: filter_empty_conv)

lemma map_of_sumBy:
  "map_of (sumBy f data) k =
     (if k \<in> f ` set data then Some (sum_list (map Revenue (filter (\<lambda>d. f d = k) data))) else None)"
proof (induction data rule: rev_induct)
  case Nil
  then show ?case by (simp add: sumBy_Nil)
next
  case (snoc d data)
  show ?case
  proof (cases "k = f d")
    case True
    then show ?thesis
      using snoc by (simp add: sumBy_snoc map_of_objSet orZero_def filter_no_key)
  next
    case False
    then show ?thesis
      using snoc by (simp add: sumBy_snoc map_of_objSet)
  qed
qed

lemma mset_values_sumBy:
  "mset (map snd (sumBy f data)) =
     image_mset (\<lambda>k. sum_list (map Revenue (filter (\<lambda>d. f d = k) data))) (mset_set (f ` set data))"
proof -
  let ?xs = "sumBy f data"
  let ?tot = "\<lambda>k. sum_list (map Revenue (filter (\<lambda>d. f d = k) data))"
  have "map snd ?xs = map (\<lambda>k. the (map_of ?xs k)) (map fst ?xs)"
    by (rule alist_values) (rule distinct_sumBy)
  also have "\<dots> = map ?tot (map fst ?xs)"
  proof (rule map_cong [OF refl])
    fix k assume "k \<in> set (map fst ?xs)"
    then have "k \<in> f ` set data" by (simp only: keys_sumBy)
    then show "the (map_of ?xs k) = ?tot k" by (simp add: map_of_sumBy)
  qed
  finally have "mset (map snd ?xs) = image_mset ?tot (mset (map fst ?xs))"
    by (simp only: mset_map)
  moreover have "mset (map fst ?xs) = mset_set (set (map fst ?xs))"
    using distinct_sumBy [of f data] by (simp only: mset_set_set)
  ultimately show ?thesis by (simp only: keys_sumBy)
qed




section \<open>Percentiles of bill totals\<close>

lemma billTotals_Nil: "billTotals [] = []"
  by (simp add: billTotals_def sumBy_Nil)

lemma length_billTotals: "length (billTotals data) = card (BillNumber ` set data)"
proof -
  have "length (billTotals data) = length (map fst (sumBy BillNumber data))"
    by (simp add: billTotals_def)
  also have "\<dots> = card (set (map fst (sumBy BillNumber data)))"
    using distinct_sumBy [of BillNumber data] by (simp only: distinct_card)
  finally show ?thesis by (simp only: keys_sumBy)
qed

lemma billTotals_nonempty: "data \<noteq> [] \<Longrightarrow> billTotals data \<noteq> []"
proof -
  assume "data \<noteq> []"
  then have "BillNumber ` set data \<noteq> {}" by simp
  then have "card (BillNumber ` set data) \<noteq> 0" by simp
  then show ?thesis by (simp only: length_billTotals [symmetric]) simp
qed

lemma floor_index_in_range:
  assumes "0 \<le> p" "p < 1" "0 < n"
  shows "0 \<le> \<lfloor>rat_of_nat n * p\<rfloor> \<and> \<lfloor>rat_of_nat n * p\<rfloor> < int n"
proof
  from assms show "0 \<le> \<lfloor>rat_of_nat n * p\<rfloor>" by simp
  have "rat_of_nat n * p < rat_of_nat n * 1"
    using assms by (intro mult_strict_left_mono) simp_all
  then have "rat_of_nat n * p < of_int (int n)" by simp
  then show "\<lfloor>rat_of_nat n * p\<rfloor> < int n" by (simp only: floor_less_iff)
qed

text \<open>
  C8. The percentile of the bill totals groups the line items into one total per bill
  (the totals are the revenue sums of the distinct bill numbers), sorts the totals
  ascending and returns the element at index \<open>floor (p * length)\<close>, which is in range
  for every \<open>p\<close> from 0 up to, not including, 1; it returns 0 where the index is out
  of range, so on empty input. On the totals 10, 20, 30, 40 the 25th percentile is 20.
  generatePeakHourAnalysis reaches the empty case (no row in the peak window);
  generateCustomerSpendingInsights returns before it, and on other input its spending
  range is the 25th and the 75th percentile.
\<close>

theorem percentile_of_bill_totals:
  "percentileOfSortedBillTotals [] p = 0
   \<and> percentileOfSortedBillTotals data p =
       (let totals = sort (billTotals data); i = \<lfloor>rat_of_nat (length totals) * p\<rfloor>
        in if 0 \<le> i \<and> i < int (length totals) then totals ! nat i else 0)
   \<and> (data \<noteq> [] \<and> 0 \<le> p \<and> p < 1 \<longrightarrow>
        nat \<lfloor>rat_of_nat (length (billTotals data)) * p\<rfloor> < length (billTotals data)
        \<and> percentileOfSortedBillTotals data p =
            sort (billTotals data) ! nat \<lfloor>rat_of_nat (length (billTotals data)) * p\<rfloor>)
   \<and> mset (billTotals data) =
        image_mset (\<lambda>b. sum_list (map Revenue (filter (\<lambda>d. BillNumber d = b) data)))
          (mset_set (BillNumber ` set data))
   \<and> quartile [10, 20, 30, 40] (1 / 4) = 20
   \<and> generateCustomerSpendingInsights [] = None
   \<and> (data \<noteq> [] \<longrightarrow>
        (\<exists>s. generateCustomerSpendingInsights data = Some s
           \<and> avgSpendLower s = percentileOfSortedBillTotals data (1 / 4)
           \<and> avgSpendUpper s = percentileOfSortedBillTotals data (3 / 4)))"
proof -
  have empty: "percentileOfSortedBillTotals [] p = 0"
    by (simp add: percentileOfSortedBillTotals_def quartile_def atOrZero_def billTotals_Nil)
  have index: "percentileOfSortedBillTotals data p =
       (let totals = sort (billTotals data); i = \<lfloor>rat_of_nat (length totals) * p\<rfloor>
        in if 0 \<le> i \<and> i < int (length totals) then totals ! nat i else 0)"
    by (simp add: percentileOfSortedBillTotals_def quartile_def atOrZero_def Let_def)
  have totals: "mset (billTotals data) =
        image_mset (\<lambda>b. sum_list (map Revenue (filter (\<lambda>d. BillNumber d = b) data)))
          (mset_set (BillNumber ` set data))"
    unfolding billTotals_def by (rule mset_values_sumBy)
  have example: "quartile [10, 20, 30, 40] (1 / 4) = 20"
    by (simp add: quartile_def atOrZero_def)
  have inrange: "nat \<lfloor>rat_of_nat (length (billTotals data)) * p\<rfloor> < length (billTotals data)
        \<and> percentileOfSortedBillTotals data p =
            sort (billTotals data) ! nat \<lfloor>rat_of_nat (length (billTotals data)) * p\<rfloor>"
    if a: "data \<noteq> [] \<and> 0 \<le> p \<and> p < 1"
  proof -
    from a have n: "0 < length (billTotals data)"
      using billTotals_nonempty [of data] by simp
    from a n have r: "0 \<le> \<lfloor>rat_of_nat (length (billTotals data)) * p\<rfloor>
        \<and> \<lfloor>rat_of_nat (length (billTotals data)) * p\<rfloor> < int (length (billTotals data))"
      by (intro floor_index_in_range) simp_all
    then have "nat \<lfloor>rat_of_nat (length (billTotals data)) * p\<rfloor> < length (billTotals data)"
      by linarith
    moreover from r have "percentileOfSortedBillTotals data p =
            sort (billTotals data) ! nat \<lfloor>rat_of_nat (length (billTotals data)) * p\<rfloor>"
      by (simp add: percentileOfSortedBillTotals_def quartile_def atOrZero_def)
    ultimately show ?thesis by simp
  qed
  have early: "generateCustomerSpendingInsights [] = None"
    by (simp add: generateCustomerSpendingInsights_def)
  have insights: "\<exists>s. generateCustomerSpendingInsights data = Some s
           \<and> avgSpendLower s = percentileOfSortedBillTotals data (1 / 4)
           \<and> avgSpendUpper s = percentileOfSortedBillTotals data (3 / 4)"
    if "data \<noteq> []"
    using that billTotals_nonempty [of data] by (simp add: generateCustomerSpendingInsights_def)
  from empty index totals example inrange early insights show ?thesis
    by blast
qed

lemma fourBills_totals:
  "billTotals fourBills = [40, 20, 10, 30]"
  "sort (billTotals fourBills) = [10, 20, 30, 40]"
  "percentileOfSortedBillTotals fourBills (1 / 4) = 20"
  "percentileOfSortedBillTotals fourBills (3 / 4) = 40"
  by code_simp+

theorem percentile_of_bill_totals_witness:
  "fourBills \<noteq> [] \<and> (0::rat) \<le> 1 / 4 \<and> (1 / 4 :: rat) < 1
   \<and> sort (billTotals fourBills) = [10, 20, 30, 40]
   \<and> percentileOfSortedBillTotals fourBills (1 / 4) = 20
   \<and> percentileOfSortedBillTotals [] (1 / 4) = 0"
  using percentile_of_bill_totals [of "1 / 4" fourBills]
  by (simp add: fourBills_totals) (simp add: fourBills_def)

section \<open>Product quadrants\<close>



























section \<open>The compiled view\<close>

text \<open>
  C4. When the upload count of the cached snapshot equals the remote upload count, the
  handler fetches no page from the remote store, the records it goes on with are the
  cached records, and the cache is left as it is.
\<close>

theorem valid_cache_is_used_as_is:
  assumes "uploadCount c = uploads remote"
  shows "pageFetches (viewCompiled remote (Some c) now) = 0
     \<and> finalData (viewCompiled remote (Some c) now) = Some (cachedData c)
     \<and> cacheAfter (viewCompiled remote (Some c) now) = Some c"
  using assms by (simp add: viewCompiled_def)

theorem valid_cache_is_used_as_is_witness:
  "uploadCount sampleCache = uploads (sampleRemote 3)
   \<and> pageFetches (viewCompiled (sampleRemote 3) (Some sampleCache) 30) = 0
   \<and> finalData (viewCompiled (sampleRemote 3) (Some sampleCache) 30)
       = Some [sampleRow 10 5 ''b1'' ''Nasi'' None]"
proof -
  have h: "uploadCount sampleCache = uploads (sampleRemote 3)"
    by (simp add: sampleCache_def sampleRemote_def)
  show ?thesis
    using h valid_cache_is_used_as_is [OF h, of 30] by (simp add: sampleCache_def)
qed

text \<open>
  The other two branches on the same store: with five uploads against the three of the
  cache, one query fetches the newer bill and the cache is rewritten; with no cache, one
  page fetches both bills.
\<close>

lemma outdated_cache_fetches:
  "viewCompiled (sampleRemote 5) (Some sampleCache) 30
     = \<lparr>finalData = Some [sampleRow 10 5 ''b1'' ''Nasi'' None, sampleRow 20 7 ''b2'' ''Mie'' None],
        pageFetches = 1,
        cacheAfter = Some \<lparr>cachedData = [sampleRow 10 5 ''b1'' ''Nasi'' None, sampleRow 20 7 ''b2'' ''Mie'' None],
                           uploadCount = 5, timestamp = 30, lastTransactionDate = Some 20\<rparr>\<rparr>"
  "viewCompiled (sampleRemote 5) None 30
     = \<lparr>finalData = Some [sampleRow 10 5 ''b1'' ''Nasi'' None, sampleRow 20 7 ''b2'' ''Mie'' None],
        pageFetches = 1,
        cacheAfter = Some \<lparr>cachedData = [sampleRow 10 5 ''b1'' ''Nasi'' None, sampleRow 20 7 ''b2'' ''Mie'' None],
                           uploadCount = 5, timestamp = 30, lastTransactionDate = Some 20\<rparr>\<rparr>"
  by code_simp+

section \<open>Peak hour\<close>

text \<open>
  C5. With one bill at 00:30 the histogram has its only, and so its highest, count at
  hour 0. The function reports hour 12: \<^verbatim>\<open>[0]?.hour || 12\<close> takes the hour 0 for a
  missing one. The window it reports is 12 to 14, and no row lies in it.
\<close>

theorem peak_hour_at_midnight:
  "hourlyTraffic 0 midnightSale = [(0, 1)]
   \<and> peakHour 0 midnightSale = 12
   \<and> generatePeakHourAnalysis 0 midnightSale
       = Some \<lparr>peakHourStart = 12, peakHourEnd = 14, peakHourData = [], minCheck = 0, maxCheck = 0\<rparr>"
  by code_simp

theorem peak_hour_at_midnight_witness:
  "peakHour 0 midnightSale \<noteq> fst (hd (hourlyTraffic 0 midnightSale))"
  using peak_hour_at_midnight by simp

text \<open>
  What the function does for every record set: it takes an hour of the highest count
  of distinct bills, and reports it unless it is hour 0, for which it reports 12.
\<close>

lemma set_setAdd: "set (setAdd x s) = insert x (set s)"
  by (auto simp add: setAdd_def)

lemma distinct_setAdd: "distinct s \<Longrightarrow> distinct (setAdd x s)"
  by (simp add: setAdd_def)

lemma keys_addHourBill: "fst ` set (addHourBill h b acc) = insert h (fst ` set acc)"
  by (induction acc) (force split: if_splits)+

lemma sorted_addHourBill:
  "sorted_wrt (<) (map fst acc) \<Longrightarrow> sorted_wrt (<) (map fst (addHourBill h b acc))"
proof (induction acc)
  case Nil
  then show ?case by simp
next
  case (Cons e acc)
  obtain h' s where e: "e = (h', s)" by (cases e)
  have keys: "set (map fst (addHourBill h b acc)) = insert h (set (map fst acc))"
    using keys_addHourBill [of h b acc] by simp
  from Cons show ?case
    unfolding e by (auto simp add: keys simp del: set_map)
qed

lemma map_of_addHourBill:
  "sorted_wrt (<) (map fst acc) \<Longrightarrow>
   map_of (addHourBill h b acc) h' =
     (if h' = h then Some (setAdd b (case map_of acc h of None \<Rightarrow> [] | Some s \<Rightarrow> s))
      else map_of acc h')"
proof (induction acc)
  case Nil
  then show ?case by (simp add: setAdd_def)
next
  case (Cons e acc)
  obtain k s where e: "e = (k, s)" by (cases e)
  from Cons.prems e have less: "\<forall>x\<in>set (map fst acc). k < x" and so: "sorted_wrt (<) (map fst acc)"
    by simp_all
  have absent: "map_of acc h = None" if "h < k"
  proof -
    from less that have "h \<notin> set (map fst acc)" by auto
    then show ?thesis by (simp add: map_of_eq_None_iff)
  qed
  show ?case
    using Cons.IH [OF so] absent unfolding e by (auto simp add: setAdd_def)
qed

lemma hourlyBills_snoc:
  "hourlyBills offset (data @ [d]) =
     addHourBill (getHours offset (SalesDateIn d)) (BillNumber d) (hourlyBills offset data)"
  by (simp add: hourlyBills_def)

lemma sorted_hourlyBills: "sorted_wrt (<) (map fst (hourlyBills offset data))"
  by (induction data rule: rev_induct)
    (simp_all add: hourlyBills_snoc sorted_addHourBill, simp add: hourlyBills_def)

lemma keys_hourlyBills:
  "fst ` set (hourlyBills offset data) = (\<lambda>d. getHours offset (SalesDateIn d)) ` set data"
  by (induction data rule: rev_induct)
    (simp add: hourlyBills_def, simp add: hourlyBills_snoc keys_addHourBill)

lemma bills_hourlyBills:
  "map_of (hourlyBills offset data) h = Some s \<Longrightarrow>
   distinct s \<and> set s = BillNumber ` {d \<in> set data. getHours offset (SalesDateIn d) = h}"
proof (induction data arbitrary: s rule: rev_induct)
  case Nil
  then show ?case by (simp add: hourlyBills_def)
next
  case (snoc d data)
  let ?hd = "getHours offset (SalesDateIn d)"
  let ?hb = "hourlyBills offset data"
  have upd: "map_of (hourlyBills offset (data @ [d])) h =
     (if h = ?hd then Some (setAdd (BillNumber d) (case map_of ?hb ?hd of None \<Rightarrow> [] | Some s \<Rightarrow> s))
      else map_of ?hb h)"
    unfolding hourlyBills_snoc by (rule map_of_addHourBill) (rule sorted_hourlyBills)
  show ?case
  proof (cases "h = ?hd")
    case False
    with snoc.prems upd have "map_of ?hb h = Some s" by simp
    from snoc.IH [OF this] False show ?thesis by auto
  next
    case True
    show ?thesis
    proof (cases "map_of ?hb ?hd")
      case None
      then have "?hd \<notin> fst ` set ?hb" by (simp add: map_of_eq_None_iff)
      then have "{d' \<in> set data. getHours offset (SalesDateIn d') = ?hd} = {}"
        unfolding keys_hourlyBills by (auto simp add: image_iff)
      moreover from None True snoc.prems upd have "s = [BillNumber d]"
        by (simp add: setAdd_def)
      ultimately show ?thesis using True by auto
    next
      case (Some s0)
      from Some True have "map_of ?hb h = Some s0" by simp
      from snoc.IH [OF this] True have s0: "distinct s0"
        "set s0 = BillNumber ` {d' \<in> set data. getHours offset (SalesDateIn d') = ?hd}"
        by simp_all
      from Some True snoc.prems upd have "s = setAdd (BillNumber d) s0" by simp
      with s0 True show ?thesis
        by (auto simp add: set_setAdd distinct_setAdd)
    qed
  qed
qed

lemma hourlyTraffic_counts:
  assumes "(h, c) \<in> set (hourlyTraffic offset data)"
  shows "h \<in> (\<lambda>d. getHours offset (SalesDateIn d)) ` set data \<and> c = billsAt offset data h"
proof -
  from assms obtain s where s: "(h, s) \<in> set (hourlyBills offset data)" and c: "c = length s"
    by (auto simp add: hourlyTraffic_def)
  have "distinct (map fst (hourlyBills offset data))"
    using sorted_hourlyBills [of offset data] by (simp add: strict_sorted_iff)
  with s have "map_of (hourlyBills offset data) h = Some s" by simp
  from bills_hourlyBills [OF this] c have "c = billsAt offset data h"
    by (simp add: billsAt_def distinct_card [symmetric])
  moreover from s have "h \<in> fst ` set (hourlyBills offset data)" by force
  ultimately show ?thesis by (simp add: keys_hourlyBills)
qed

lemma billsAt_absent:
  "h \<notin> (\<lambda>d. getHours offset (SalesDateIn d)) ` set data \<Longrightarrow> billsAt offset data h = 0"
proof -
  assume "h \<notin> (\<lambda>d. getHours offset (SalesDateIn d)) ` set data"
  then have "{d \<in> set data. getHours offset (SalesDateIn d) = h} = {}" by auto
  then show ?thesis by (simp add: billsAt_def)
qed

lemma hourlyTraffic_complete:
  assumes "h \<in> (\<lambda>d. getHours offset (SalesDateIn d)) ` set data"
  shows "(h, billsAt offset data h) \<in> set (hourlyTraffic offset data)"
proof -
  from assms have "h \<in> fst ` set (hourlyBills offset data)" by (simp add: keys_hourlyBills)
  then obtain s where s: "(h, s) \<in> set (hourlyBills offset data)" by auto
  then have "(h, length s) \<in> set (hourlyTraffic offset data)"
    by (force simp add: hourlyTraffic_def)
  with hourlyTraffic_counts [OF this] show ?thesis by simp
qed

lemma peakHour_argmax:
  assumes "data \<noteq> []"
  shows "\<exists>h. h \<in> (\<lambda>d. getHours offset (SalesDateIn d)) ` set data
     \<and> (\<forall>h'. billsAt offset data h' \<le> billsAt offset data h)
     \<and> peakHour offset data = (if h = 0 then 12 else h)"
proof -
  let ?f = "\<lambda>(hour, cnt). - int cnt"
  let ?T = "hourlyTraffic offset data"
  let ?S = "sort_key ?f ?T"
  from assms obtain d where "d \<in> set data" by (cases data) auto
  then have "(getHours offset (SalesDateIn d), billsAt offset data (getHours offset (SalesDateIn d))) \<in> set ?T"
    by (intro hourlyTraffic_complete) simp
  then have "set ?S \<noteq> {}" by auto
  then obtain h c rest where S: "?S = (h, c) # rest" by (cases ?S) auto
  then have "(h, c) \<in> set ?S" by simp
  then have inT: "(h, c) \<in> set ?T" by simp
  from hourlyTraffic_counts [OF inT]
  have h: "h \<in> (\<lambda>d. getHours offset (SalesDateIn d)) ` set data" and c: "c = billsAt offset data h"
    by simp_all
  have "sorted (map ?f ?S)" by (rule sorted_sort_key)
  with S have least: "\<forall>x\<in>set ?S. ?f (h, c) \<le> ?f x" by auto
  have max: "billsAt offset data h' \<le> billsAt offset data h" for h'
  proof (cases "h' \<in> (\<lambda>d. getHours offset (SalesDateIn d)) ` set data")
    case True
    then have "(h', billsAt offset data h') \<in> set ?S"
      using hourlyTraffic_complete [of h' offset data] by simp
    with least have "?f (h, c) \<le> ?f (h', billsAt offset data h')" by blast
    with c show ?thesis by simp
  next
    case False
    then show ?thesis by (simp add: billsAt_absent)
  qed
  have "peakHour offset data = (if h = 0 then 12 else h)"
    by (simp add: peakHour_def S)
  with h max show ?thesis by blast
qed

section \<open>Customer segments\<close>

text \<open>
  C2. A customer with three bills in the whole history, one of them inside the current
  window, is classified as loyal: the function counts the bills of the profile, which
  is built from the whole history, where its own comment and the claim count the bills
  inside the window.
\<close>

theorem loyal_counts_whole_history:
  "aniCurrent = [sampleRow 300 30 ''b3'' ''Mie'' (Some ''Ani'')]
   \<and> map customer (loyalCustomers (the (generateCustomerAnalysisInsights aniCurrent aniHistory 250 350)))
       = [''Ani'']
   \<and> length (remdups (map BillNumber (filter (\<lambda>d. CustomerName d = Some ''Ani'') aniCurrent))) = 1"
  by code_simp

theorem loyal_counts_whole_history_witness:
  "map customer (loyalCustomers (the (generateCustomerAnalysisInsights aniCurrent aniHistory 250 350)))
     \<noteq> []"
  using loyal_counts_whole_history by simp

text \<open>
  What the function does for every input: among the customers active in the current
  rows, the new ones are those whose first row in the whole history lies in the window,
  and the loyal ones are those with more than two distinct bills in the whole history.
\<close>

lemma rowsOf_snoc:
  "rowsOf (data @ [d]) n = (if CustomerName d = Some n then insert d (rowsOf data n) else rowsOf data n)"
  by (auto simp add: rowsOf_def)

lemma finite_rowsOf: "finite (rowsOf data n)"
  by (simp add: rowsOf_def)

lemma customerProfiles_snoc:
  "customerProfiles (nd @ [d]) = addToProfile (customerProfiles nd) d"
  by (simp add: customerProfiles_def)

lemma map_of_addToProfile:
  "map_of (addToProfile acc d) n =
     (if n = the (CustomerName d)
      then Some (let p = (case map_of acc n of
                            None \<Rightarrow> \<lparr>customer = n, bills = [], firstSeen = SalesDateIn d, totalSpend = 0\<rparr>
                          | Some p \<Rightarrow> p)
                 in \<lparr>customer = customer p, bills = setAdd (BillNumber d) (bills p),
                     firstSeen = min (SalesDateIn d) (firstSeen p),
                     totalSpend = totalSpend p + Revenue d\<rparr>)
      else map_of acc n)"
  by (auto simp add: addToProfile_def Let_def map_of_objSet min_def split: option.splits)

lemma keys_customerProfiles:
  "fst ` set (customerProfiles nd) = (\<lambda>d. the (CustomerName d)) ` set nd"
  by (induction nd rule: rev_induct)
    (simp add: customerProfiles_def,
     simp add: customerProfiles_snoc addToProfile_def Let_def set_keys_objSet)

lemma distinct_customerProfiles: "distinct (map fst (customerProfiles nd))"
  by (induction nd rule: rev_induct)
    (simp add: customerProfiles_def,
     simp add: customerProfiles_snoc addToProfile_def Let_def distinct_objSet)

lemma profile_of_customer:
  assumes "\<forall>d\<in>set nd. named d" and "map_of (customerProfiles nd) n = Some p"
  shows "customer p = n \<and> rowsOf nd n \<noteq> {} \<and> distinct (bills p)
     \<and> set (bills p) = BillNumber ` rowsOf nd n
     \<and> firstSeen p = Min (SalesDateIn ` rowsOf nd n)
     \<and> totalSpend p = sum_list (map Revenue (filter (\<lambda>d. CustomerName d = Some n) nd))"
  using assms
proof (induction nd arbitrary: p rule: rev_induct)
  case Nil
  then show ?case by (simp add: customerProfiles_def)
next
  case (snoc d nd)
  from snoc.prems(1) have nd: "\<forall>d\<in>set nd. named d" and "named d" by simp_all
  then obtain m where m: "CustomerName d = Some m"
    by (auto simp add: named_def split: option.splits)
  show ?case
  proof (cases "n = m")
    case False
    with snoc.prems(2) m have "map_of (customerProfiles nd) n = Some p"
      by (simp add: customerProfiles_snoc map_of_addToProfile)
    from snoc.IH [OF nd this] False m show ?thesis
      by (simp add: rowsOf_snoc)
  next
    case True
    show ?thesis
    proof (cases "map_of (customerProfiles nd) n")
      case None
      then have "n \<notin> fst ` set (customerProfiles nd)"
        by (simp add: map_of_eq_None_iff)
      then have "n \<notin> (\<lambda>d. the (CustomerName d)) ` set nd"
        by (simp add: keys_customerProfiles)
      then have empty: "rowsOf nd n = {}"
        by (auto simp add: rowsOf_def image_iff)
      then have nofilter: "filter (\<lambda>d. CustomerName d = Some n) nd = []"
        by (auto simp add: rowsOf_def filter_empty_conv)
      from None True m snoc.prems(2)
      have "p = \<lparr>customer = n, bills = [BillNumber d], firstSeen = SalesDateIn d, totalSpend = Revenue d\<rparr>"
        by (simp add: customerProfiles_snoc map_of_addToProfile setAdd_def)
      with True m empty nofilter show ?thesis
        by (simp add: rowsOf_snoc)
    next
      case (Some p0)
      from snoc.IH [OF nd Some]
      have p0: "customer p0 = n" "rowsOf nd n \<noteq> {}" "distinct (bills p0)"
        "set (bills p0) = BillNumber ` rowsOf nd n"
        "firstSeen p0 = Min (SalesDateIn ` rowsOf nd n)"
        "totalSpend p0 = sum_list (map Revenue (filter (\<lambda>d. CustomerName d = Some n) nd))"
        by simp_all
      from Some True m snoc.prems(2)
      have p: "p = \<lparr>customer = customer p0, bills = setAdd (BillNumber d) (bills p0),
                  firstSeen = min (SalesDateIn d) (firstSeen p0),
                  totalSpend = totalSpend p0 + Revenue d\<rparr>"
        by (simp add: customerProfiles_snoc map_of_addToProfile)
      have "Min (SalesDateIn ` insert d (rowsOf nd n)) = min (SalesDateIn d) (Min (SalesDateIn ` rowsOf nd n))"
        using p0(2) finite_rowsOf [of nd n] by simp
      with p p0 True m show ?thesis
        by (simp add: rowsOf_snoc set_setAdd distinct_setAdd)
    qed
  qed
qed

lemma rowsOf_named: "n \<noteq> [] \<Longrightarrow> rowsOf (filter named allData) n = rowsOf allData n"
  by (auto simp add: rowsOf_def named_def)

lemma profile_key_nonempty:
  assumes "map_of (customerProfiles (filter named allData)) n = Some p"
  shows "n \<noteq> []"
proof -
  from assms have "n \<in> fst ` set (customerProfiles (filter named allData))"
    by (metis map_of_eq_None_iff option.distinct(1))
  then obtain d where "d \<in> set allData" "named d" "n = the (CustomerName d)"
    unfolding keys_customerProfiles by auto
  then show ?thesis by (auto simp add: named_def split: option.splits)
qed

lemma profile_of_history:
  assumes "map_of (customerProfiles (filter named allData)) n = Some p"
  shows "customer p = n \<and> rowsOf allData n \<noteq> {}
     \<and> length (bills p) = card (BillNumber ` rowsOf allData n)
     \<and> firstSeen p = Min (SalesDateIn ` rowsOf allData n)"
proof -
  have n: "n \<noteq> []" using assms by (rule profile_key_nonempty)
  have "\<forall>d\<in>set (filter named allData). named d" by simp
  from profile_of_customer [OF this assms] show ?thesis
    by (simp add: rowsOf_named [OF n] distinct_card [symmetric])
qed

lemma segments_by_history:
  assumes "generateCustomerAnalysisInsights currentData allData periodStart periodEnd = Some segs"
  shows "set (newCustomers segs) =
      {p. \<exists>n. map_of (customerProfiles (filter named allData)) n = Some p
            \<and> Some n \<in> CustomerName ` set currentData
            \<and> periodStart \<le> Min (SalesDateIn ` rowsOf allData n)
            \<and> Min (SalesDateIn ` rowsOf allData n) \<le> periodEnd}"
    and "set (loyalCustomers segs) =
      {p. \<exists>n. map_of (customerProfiles (filter named allData)) n = Some p
            \<and> Some n \<in> CustomerName ` set currentData
            \<and> 2 < card (BillNumber ` rowsOf allData n)}"
proof -
  let ?profiles = "customerProfiles (filter named allData)"
  let ?active = "filter (\<lambda>p. Some (customer p) \<in> set (map CustomerName currentData)) (map snd ?profiles)"
  from assms have segs:
    "newCustomers segs = filter (\<lambda>p. firstSeen p \<ge> periodStart \<and> firstSeen p \<le> periodEnd) ?active"
    "loyalCustomers segs = filter (\<lambda>p. length (bills p) > 2) ?active"
    by (auto simp add: generateCustomerAnalysisInsights_def Let_def split: if_splits)
  have entry: "p \<in> set (map snd ?profiles) \<longleftrightarrow> (\<exists>n. map_of ?profiles n = Some p)" for p
    using distinct_customerProfiles [of "filter named allData"] by force
  show "set (newCustomers segs) =
      {p. \<exists>n. map_of ?profiles n = Some p
            \<and> Some n \<in> CustomerName ` set currentData
            \<and> periodStart \<le> Min (SalesDateIn ` rowsOf allData n)
            \<and> Min (SalesDateIn ` rowsOf allData n) \<le> periodEnd}"
  proof (intro set_eqI iffI)
    fix p assume "p \<in> set (newCustomers segs)"
    then have a: "p \<in> set (map snd ?profiles)" "Some (customer p) \<in> CustomerName ` set currentData"
      "periodStart \<le> firstSeen p" "firstSeen p \<le> periodEnd"
      unfolding segs by simp_all
    from a(1) entry obtain n where n: "map_of ?profiles n = Some p" by blast
    from profile_of_history [OF n] a(2-4) n
    show "p \<in> {p. \<exists>n. map_of ?profiles n = Some p
            \<and> Some n \<in> CustomerName ` set currentData
            \<and> periodStart \<le> Min (SalesDateIn ` rowsOf allData n)
            \<and> Min (SalesDateIn ` rowsOf allData n) \<le> periodEnd}"
      by auto
  next
    fix p assume "p \<in> {p. \<exists>n. map_of ?profiles n = Some p
            \<and> Some n \<in> CustomerName ` set currentData
            \<and> periodStart \<le> Min (SalesDateIn ` rowsOf allData n)
            \<and> Min (SalesDateIn ` rowsOf allData n) \<le> periodEnd}"
    then obtain n where n: "map_of ?profiles n = Some p"
      and b: "Some n \<in> CustomerName ` set currentData"
        "periodStart \<le> Min (SalesDateIn ` rowsOf allData n)"
        "Min (SalesDateIn ` rowsOf allData n) \<le> periodEnd"
      by blast
    from n entry have "p \<in> set (map snd ?profiles)" by blast
    with profile_of_history [OF n] b show "p \<in> set (newCustomers segs)"
      unfolding segs by simp
  qed
  show "set (loyalCustomers segs) =
      {p. \<exists>n. map_of ?profiles n = Some p
            \<and> Some n \<in> CustomerName ` set currentData
            \<and> 2 < card (BillNumber ` rowsOf allData n)}"
  proof (intro set_eqI iffI)
    fix p assume "p \<in> set (loyalCustomers segs)"
    then have a: "p \<in> set (map snd ?profiles)" "Some (customer p) \<in> CustomerName ` set currentData"
      "2 < length (bills p)"
      unfolding segs by simp_all
    from a(1) entry obtain n where n: "map_of ?profiles n = Some p" by blast
    from profile_of_history [OF n] a(2,3) n
    show "p \<in> {p. \<exists>n. map_of ?profiles n = Some p
            \<and> Some n \<in> CustomerName ` set currentData
            \<and> 2 < card (BillNumber ` rowsOf allData n)}"
      by auto
  next
    fix p assume "p \<in> {p. \<exists>n. map_of ?profiles n = Some p
            \<and> Some n \<in> CustomerName ` set currentData
            \<and> 2 < card (BillNumber ` rowsOf allData n)}"
    then obtain n where n: "map_of ?profiles n = Some p"
      and b: "Some n \<in> CustomerName ` set currentData" "2 < card (BillNumber ` rowsOf allData n)"
      by blast
    from n entry have "p \<in> set (map snd ?profiles)" by blast
    with profile_of_history [OF n] b show "p \<in> set (loyalCustomers segs)"
      unfolding segs by simp
  qed
qed

section \<open>Normalizing raw rows\<close>

lemma getProp_objSet: "getProp (objSet k v e) k' = (if k' = k then v else getProp e k')"
  by (simp add: getProp_def map_of_objSet)

lemma getProp_copy:
  "getProp (foldl (\<lambda>entry col. objSet col (getProp raw col) entry) acc cols) k
     = (if k \<in> set cols then getProp raw k else getProp acc k)"
  by (induction cols arbitrary: acc) (auto simp add: getProp_objSet)

lemma getProp_Nil: "getProp [] k = JUndefined"
  by (simp add: getProp_def)

lemma buildEntry_alist:
  "buildEntry pf raw =
     [(''Bill Number'', getProp raw ''Bill Number''),
      (''Sales Date In'', JDate (newDate pf (getProp raw ''Sales Date In''))),
      (''Branch'', getProp raw ''Branch''),
      (''Brand'', getProp raw ''Brand''),
      (''Visit Purpose'', getProp raw ''Visit Purpose''),
      (''Payment Method'', getProp raw ''Payment Method''),
      (''Menu Category'', getProp raw ''Menu Category''),
      (''Menu'', getProp raw ''Menu''),
      (''Custom Menu Name'', getProp raw ''Custom Menu Name''),
      (''Qty'', getProp raw ''Qty''),
      (''Price'', getProp raw ''Price''),
      (''Discount'', getProp raw ''Discount''),
      (''Tax'', getProp raw ''Tax''),
      (''Nett Sales'', getProp raw ''Nett Sales''),
      (''Waiter'', getProp raw ''Waiter''),
      (''Bill Discount'', getProp raw ''Bill Discount''),
      (''Service Charge'', getProp raw ''Service Charge''),
      (''Customer Name'', getProp raw ''Customer Name''),
      (''Regular Member Name'', getProp raw ''Regular Member Name''),
      (''Order Mode'', getProp raw ''Order Mode''),
      (''Table Section'', getProp raw ''Table Section''),
      (''Table Name'', getProp raw ''Table Name''),
      (''Quantity'', JNum (numOrZero (parseInt pf (getProp raw ''Qty'')))),
      (''Revenue'', JNum (numOrZero (parseFloat pf (getProp raw ''Nett Sales'')))),
      (''Item Group'', getProp raw ''Menu Category''),
      (''Item Name'', getProp raw ''Menu'')]"
  by (simp add: buildEntry_def Let_def allColumns_def)

lemma buildEntry_date:
  "getProp (buildEntry pf raw) ''Sales Date In'' = JDate (newDate pf (getProp raw ''Sales Date In''))"
  unfolding buildEntry_alist by (simp add: getProp_def)

lemma buildEntry_bill:
  "getProp (buildEntry pf raw) ''Bill Number'' = getProp raw ''Bill Number''"
  unfolding buildEntry_alist by (simp add: getProp_def)

lemma buildEntry_quantity:
  "getProp (buildEntry pf raw) ''Quantity'' = JNum (numOrZero (parseInt pf (getProp raw ''Qty'')))"
  unfolding buildEntry_alist by (simp add: getProp_def)

lemma buildEntry_revenue:
  "getProp (buildEntry pf raw) ''Revenue'' = JNum (numOrZero (parseFloat pf (getProp raw ''Nett Sales'')))"
  unfolding buildEntry_alist by (simp add: getProp_def)

lemma numOrZero_not_NaN: "numOrZero n \<noteq> NaN"
  by (simp add: numOrZero_def)

lemma numOrZero_eq: "numOrZero n = (if n = NaN then Fin 0 else n)"
  by (simp add: numOrZero_def)

lemma processEntry_eq:
  "processEntry pf raw =
     (if newDate pf (getProp raw ''Sales Date In'') = None
      then Inl (InvalidDate (getProp raw ''Bill Number'') (getProp raw ''Sales Date In''))
      else Inr (buildEntry pf raw))"
  by (simp add: processEntry_def Let_def buildEntry_date buildEntry_bill)

lemma mapE_find:
  "mapE f xs =
     (case find (\<lambda>x. isl (f x)) xs of
        Some x \<Rightarrow> Inl (projl (f x))
      | None \<Rightarrow> Inr (map (\<lambda>x. projr (f x)) xs))"
  by (induction xs) (auto split: sum.splits option.splits)

lemma mapE_processEntry:
  "mapE (processEntry pf) rows =
     (case find (\<lambda>r. newDate pf (getProp r ''Sales Date In'') = None) rows of
        Some r \<Rightarrow> Inl (InvalidDate (getProp r ''Bill Number'') (getProp r ''Sales Date In''))
      | None \<Rightarrow> Inr (map (buildEntry pf) rows))"
proof -
  have isl: "(\<lambda>r. isl (processEntry pf r)) = (\<lambda>r. newDate pf (getProp r ''Sales Date In'') = None)"
    by (rule ext) (simp add: processEntry_eq)
  show ?thesis
  proof (cases "find (\<lambda>r. newDate pf (getProp r ''Sales Date In'') = None) rows")
    case None
    then have "\<forall>r\<in>set rows. newDate pf (getProp r ''Sales Date In'') \<noteq> None"
      by (simp add: find_None_iff)
    then have "map (\<lambda>r. projr (processEntry pf r)) rows = map (buildEntry pf) rows"
      by (intro map_cong refl) (auto simp add: processEntry_eq)
    with None show ?thesis by (simp add: mapE_find isl)
  next
    case (Some r)
    then have "newDate pf (getProp r ''Sales Date In'') = None"
      by (auto simp add: find_Some_iff)
    with Some show ?thesis by (simp add: mapE_find isl processEntry_eq)
  qed
qed

lemma processData_cases:
  "processData pf rows =
     (case filter validRow rows of
        [] \<Rightarrow> Inl NoValidRows
      | firstRow # _ \<Rightarrow>
          (case find (\<lambda>col. \<not> hasOwnProperty firstRow col) requiredColumns of
             Some col \<Rightarrow> Inl (MissingColumn col)
           | None \<Rightarrow>
               (case find (\<lambda>r. newDate pf (getProp r ''Sales Date In'') = None) (filter validRow rows) of
                  Some r \<Rightarrow> Inl (InvalidDate (getProp r ''Bill Number'') (getProp r ''Sales Date In''))
                | None \<Rightarrow> Inr (map (buildEntry pf) (filter validRow rows)))))"
  by (simp add: processData_def Let_def mapE_processEntry split: list.splits option.splits)

lemma find_Some_in: "find P xs = Some x \<Longrightarrow> x \<in> set xs \<and> P x"
  by (induction xs) (auto split: if_splits)

lemma entry_numbers:
  "(\<exists>q. getProp (buildEntry pf r) ''Quantity'' = JNum q \<and> q \<noteq> NaN)
   \<and> (\<exists>v. getProp (buildEntry pf r) ''Revenue'' = JNum v \<and> v \<noteq> NaN)"
  by (simp add: buildEntry_quantity buildEntry_revenue numOrZero_not_NaN)

lemma sample_runs:
  "filter validRow mixedRows = [rawSale (JStr ''001'') (JNum (Fin 1000))]"
  "processData samplePlatform mixedRows = Inr [buildEntry samplePlatform (rawSale (JStr ''001'') (JNum (Fin 1000)))]"
  "getProp (buildEntry samplePlatform (rawSale (JStr ''001'') (JNum (Fin 1000)))) ''Quantity'' = JNum (Fin 0)"
  "getProp (buildEntry samplePlatform (rawSale (JStr ''001'') (JNum (Fin 1000)))) ''Revenue'' = JNum (Fin 10000)"
  "processData samplePlatform [noRevenueRow] = Inl (MissingColumn ''Nett Sales'')"
  "processData samplePlatform [footerRow] = Inl NoValidRows"
  "processData samplePlatform headerOnly = Inl NoValidRows"
  "processData samplePlatform [rawSale (JStr ''7'') (JStr ''kemarin'')]
     = Inl (InvalidDate (JStr ''7'') (JStr ''kemarin''))"
  "filter validRow [noRevenueRow] = [noRevenueRow]"
  by code_simp+

lemma sample_stated:
  "statedFailure samplePlatform mixedRows"
  "\<not> statedFailure samplePlatform headerOnly"
  by code_simp+

text \<open>
  C9 (as amended). A row is valid when its bill number is truthy and is not the header
  text "Bill Number". Normalization fails exactly when (a) no row is valid, or (b) the
  first valid row lacks one of the required columns, and the error names the first such
  column, or (c) the date of some valid row fails to parse, and the error carries the bill
  number and the raw date of the first such row. Otherwise it succeeds, and the quantity
  and the revenue of every entry are numbers other than NaN: a field that parses to NaN
  becomes 0.
\<close>

theorem normalization_fails_iff:
  assumes "valid = filter validRow rows"
  shows "(processData pf rows = Inl NoValidRows \<longleftrightarrow> valid = [])
    \<and> (processData pf rows = Inl (MissingColumn col) \<longleftrightarrow>
         valid \<noteq> [] \<and> find (\<lambda>c. \<not> hasOwnProperty (hd valid) c) requiredColumns = Some col)
    \<and> (processData pf rows = Inl (InvalidDate b raw) \<longleftrightarrow>
         valid \<noteq> [] \<and> (\<forall>c\<in>set requiredColumns. hasOwnProperty (hd valid) c)
         \<and> (\<exists>r. find (\<lambda>r. newDate pf (getProp r ''Sales Date In'') = None) valid = Some r
                \<and> b = getProp r ''Bill Number'' \<and> raw = getProp r ''Sales Date In''))
    \<and> ((\<exists>e. processData pf rows = Inl e) \<longleftrightarrow>
         valid = [] \<or> (\<exists>c\<in>set requiredColumns. \<not> hasOwnProperty (hd valid) c)
         \<or> (\<exists>r\<in>set valid. newDate pf (getProp r ''Sales Date In'') = None))
    \<and> (\<forall>out. processData pf rows = Inr out \<longrightarrow>
         (\<forall>e\<in>set out. (\<exists>q. getProp e ''Quantity'' = JNum q \<and> q \<noteq> NaN)
                       \<and> (\<exists>v. getProp e ''Revenue'' = JNum v \<and> v \<noteq> NaN)))
    \<and> getProp (buildEntry pf r) ''Quantity''
         = JNum (if parseInt pf (getProp r ''Qty'') = NaN then Fin 0 else parseInt pf (getProp r ''Qty''))
    \<and> getProp (buildEntry pf r) ''Revenue''
         = JNum (if parseFloat pf (getProp r ''Nett Sales'') = NaN then Fin 0
                 else parseFloat pf (getProp r ''Nett Sales''))"
proof -
  let ?bad = "\<lambda>r. newDate pf (getProp r ''Sales Date In'') = None"
  have fields: "getProp (buildEntry pf r) ''Quantity''
         = JNum (if parseInt pf (getProp r ''Qty'') = NaN then Fin 0 else parseInt pf (getProp r ''Qty''))
    \<and> getProp (buildEntry pf r) ''Revenue''
         = JNum (if parseFloat pf (getProp r ''Nett Sales'') = NaN then Fin 0
                 else parseFloat pf (getProp r ''Nett Sales''))"
    by (simp add: buildEntry_quantity buildEntry_revenue numOrZero_eq)
  show ?thesis
  proof (cases valid)
    case Nil
    then have "processData pf rows = Inl NoValidRows"
      using assms by (simp add: processData_cases)
    with Nil fields show ?thesis by simp
  next
    case (Cons firstRow rest)
    then have v: "filter validRow rows = firstRow # rest" "hd valid = firstRow" "valid \<noteq> []"
      using assms by simp_all
    show ?thesis
    proof (cases "find (\<lambda>c. \<not> hasOwnProperty firstRow c) requiredColumns")
      case (Some c)
      then have res: "processData pf rows = Inl (MissingColumn c)"
        by (simp add: processData_cases v(1))
      from Some have "c \<in> set requiredColumns \<and> \<not> hasOwnProperty firstRow c"
        by (rule find_Some_in)
      then have ex: "\<exists>c\<in>set requiredColumns. \<not> hasOwnProperty (hd valid) c"
        using v(2) by blast
      from res ex Some fields v(2,3) show ?thesis by auto
    next
      case None
      then have all: "\<forall>c\<in>set requiredColumns. hasOwnProperty (hd valid) c"
        using v(2) by (simp add: find_None_iff)
      show ?thesis
      proof (cases "find ?bad valid")
        case (Some r')
        then have res: "processData pf rows
            = Inl (InvalidDate (getProp r' ''Bill Number'') (getProp r' ''Sales Date In''))"
          using None assms by (simp add: processData_cases v(1))
        from Some have "r' \<in> set valid \<and> ?bad r'"
          by (rule find_Some_in)
        then have ex: "\<exists>r\<in>set valid. ?bad r" by blast
        from res ex Some all None fields v(2,3) show ?thesis by auto
      next
        case none: None
        then have res: "processData pf rows = Inr (map (buildEntry pf) valid)"
          using None assms by (simp add: processData_cases v(1))
        from none have good: "\<not> (\<exists>r\<in>set valid. ?bad r)"
          by (simp add: find_None_iff)
        have nums: "\<forall>e\<in>set (map (buildEntry pf) valid).
            (\<exists>q. getProp e ''Quantity'' = JNum q \<and> q \<noteq> NaN)
            \<and> (\<exists>v. getProp e ''Revenue'' = JNum v \<and> v \<noteq> NaN)"
          using entry_numbers by auto
        from res good none all None fields v(2,3) nums show ?thesis by auto
      qed
    qed
  qed
qed

theorem normalization_fails_iff_witness:
  "processData samplePlatform mixedRows
     = Inr [buildEntry samplePlatform (rawSale (JStr ''001'') (JNum (Fin 1000)))]
   \<and> getProp (buildEntry samplePlatform (rawSale (JStr ''001'') (JNum (Fin 1000)))) ''Quantity''
       = JNum (Fin 0)
   \<and> processData samplePlatform [noRevenueRow] = Inl (MissingColumn ''Nett Sales'')
   \<and> processData samplePlatform [footerRow] = Inl NoValidRows
   \<and> processData samplePlatform [rawSale (JStr ''7'') (JStr ''kemarin'')]
       = Inl (InvalidDate (JStr ''7'') (JStr ''kemarin''))"
  using normalization_fails_iff [OF sample_runs(1) [symmetric], of samplePlatform "''Nett Sales''"
      "JStr ''7''" "JStr ''kemarin''" "rawSale (JStr ''001'') (JNum (Fin 1000))"]
  by (simp add: sample_runs)

text \<open>
  C9 as stated fails on a sale followed by a footer line with no bill number and no
  date: the date of the footer does not parse, and normalization succeeds, because the
  footer is dropped before any date is read. It fails as well on a lone row whose bill
  number is the header text and whose date parses: the row has a non-empty identifier,
  and normalization fails for want of a valid row.
\<close>

theorem normalization_fails_counterexample:
  "\<not> ((\<exists>e. processData samplePlatform mixedRows = Inl e) \<longleftrightarrow> statedFailure samplePlatform mixedRows)
   \<and> \<not> ((\<exists>e. processData samplePlatform headerOnly = Inl e) \<longleftrightarrow> statedFailure samplePlatform headerOnly)"
  by (simp add: sample_runs sample_stated)

lemma validRow_string:
  "getProp r ''Bill Number'' = JStr s \<Longrightarrow> validRow r \<longleftrightarrow> s \<noteq> [] \<and> s \<noteq> ''Bill Number''"
  by (simp add: validRow_def truthy_def)

lemma validRow_absent: "\<not> hasOwnProperty r ''Bill Number'' \<Longrightarrow> \<not> validRow r"
  by (simp add: validRow_def truthy_def hasOwnProperty_def getProp_def)

lemma valid_rows_succeed_iff:
  "(\<exists>out.
      (case V of
         [] \<Rightarrow> Inl NoValidRows
       | firstRow # _ \<Rightarrow>
           (case find (\<lambda>col. \<not> hasOwnProperty firstRow col) requiredColumns of
              Some col \<Rightarrow> Inl (MissingColumn col)
            | None \<Rightarrow>
                (case find (\<lambda>r. newDate pf (getProp r ''Sales Date In'') = None) V of
                   Some r \<Rightarrow> Inl (InvalidDate (getProp r ''Bill Number'') (getProp r ''Sales Date In''))
                 | None \<Rightarrow> Inr (map (buildEntry pf) V)))) = Inr out)
     \<longleftrightarrow> V \<noteq> [] \<and> (\<forall>c\<in>set requiredColumns. hasOwnProperty (hd V) c)
         \<and> (\<forall>r\<in>set V. newDate pf (getProp r ''Sales Date In'') \<noteq> None)"
proof (cases V)
  case Nil
  then show ?thesis by simp
next
  case (Cons firstRow rest)
  show ?thesis
  proof (cases "find (\<lambda>col. \<not> hasOwnProperty firstRow col) requiredColumns")
    case (Some c)
    then have "c \<in> set requiredColumns \<and> \<not> hasOwnProperty firstRow c"
      by (rule find_Some_in)
    with Some Cons show ?thesis by auto
  next
    case None
    then have all: "\<forall>c\<in>set requiredColumns. hasOwnProperty firstRow c"
      by (simp add: find_None_iff)
    show ?thesis
    proof (cases "find (\<lambda>r. newDate pf (getProp r ''Sales Date In'') = None) V")
      case (Some r)
      then have "r \<in> set V \<and> newDate pf (getProp r ''Sales Date In'') = None"
        by (rule find_Some_in)
      then have "\<not> (\<forall>r\<in>set V. newDate pf (getProp r ''Sales Date In'') \<noteq> None)"
        by blast
      with Some None Cons show ?thesis by simp
    next
      case none: None
      then have "\<forall>r\<in>set V. newDate pf (getProp r ''Sales Date In'') \<noteq> None"
        by (simp add: find_None_iff)
      with none None all Cons show ?thesis by simp
    qed
  qed
qed

lemma valid_rows_output:
  "(case V of
      [] \<Rightarrow> Inl NoValidRows
    | firstRow # _ \<Rightarrow>
        (case find (\<lambda>col. \<not> hasOwnProperty firstRow col) requiredColumns of
           Some col \<Rightarrow> Inl (MissingColumn col)
         | None \<Rightarrow>
             (case find (\<lambda>r. newDate pf (getProp r ''Sales Date In'') = None) V of
                Some r \<Rightarrow> Inl (InvalidDate (getProp r ''Bill Number'') (getProp r ''Sales Date In''))
              | None \<Rightarrow> Inr (map (buildEntry pf) V)))) = Inr out
   \<Longrightarrow> out = map (buildEntry pf) V"
  by (auto split: list.splits option.splits)

text \<open>
  C10 (as amended). Rows whose bill number is falsy (empty, absent) or the header text
  "Bill Number" are dropped without a trace: normalization answers on the input what it
  answers on the valid rows alone, and with a valid row in the input the error is never
  the one for "no valid rows". It succeeds exactly when there is a valid row, the
  first valid row has the required columns and the date of every valid row parses; then
  the output is the list of the entries built from the valid rows, in order and of the
  same length. A valid row alone does not make it succeed.
\<close>

theorem dropped_rows_are_silent:
  "processData pf rows = processData pf (filter validRow rows)
   \<and> ((\<exists>out. processData pf rows = Inr out) \<longleftrightarrow>
        filter validRow rows \<noteq> []
        \<and> (\<forall>c\<in>set requiredColumns. hasOwnProperty (hd (filter validRow rows)) c)
        \<and> (\<forall>r\<in>set (filter validRow rows). newDate pf (getProp r ''Sales Date In'') \<noteq> None))
   \<and> (\<forall>out. processData pf rows = Inr out \<longrightarrow>
        out = map (buildEntry pf) (filter validRow rows)
        \<and> length out = length (filter validRow rows)
        \<and> (\<forall>i<length out. out ! i = buildEntry pf (filter validRow rows ! i)))
   \<and> ((\<exists>r\<in>set rows. validRow r) \<longrightarrow> processData pf rows \<noteq> Inl NoValidRows)
   \<and> (\<forall>s. getProp r ''Bill Number'' = JStr s \<longrightarrow> (validRow r \<longleftrightarrow> s \<noteq> [] \<and> s \<noteq> ''Bill Number''))
   \<and> (\<not> hasOwnProperty r ''Bill Number'' \<longrightarrow> \<not> validRow r)"
proof -
  let ?valid = "filter validRow rows"
  have same: "processData pf rows = processData pf ?valid"
    by (simp add: processData_def Let_def)
  have ok: "(\<exists>out. processData pf rows = Inr out) \<longleftrightarrow>
        ?valid \<noteq> [] \<and> (\<forall>c\<in>set requiredColumns. hasOwnProperty (hd ?valid) c)
        \<and> (\<forall>r\<in>set ?valid. newDate pf (getProp r ''Sales Date In'') \<noteq> None)"
    unfolding processData_cases by (rule valid_rows_succeed_iff)
  have out0: "\<forall>out. processData pf rows = Inr out \<longrightarrow> out = map (buildEntry pf) ?valid"
    unfolding processData_cases using valid_rows_output by blast
  have out: "\<forall>out. processData pf rows = Inr out \<longrightarrow>
        out = map (buildEntry pf) ?valid \<and> length out = length ?valid
        \<and> (\<forall>i<length out. out ! i = buildEntry pf (?valid ! i))"
  proof (intro allI impI)
    fix out assume "processData pf rows = Inr out"
    with out0 have "out = map (buildEntry pf) ?valid" by blast
    then show "out = map (buildEntry pf) ?valid \<and> length out = length ?valid
        \<and> (\<forall>i<length out. out ! i = buildEntry pf (?valid ! i))"
      by (simp only: length_map nth_map) simp
  qed
  have nv: "(\<exists>r\<in>set rows. validRow r) \<longrightarrow> processData pf rows \<noteq> Inl NoValidRows"
    using processData_cases [of pf rows]
    by (auto simp add: filter_empty_conv split: list.splits option.splits)
  show ?thesis
    using same ok out nv validRow_string [of r] validRow_absent [of r] by blast
qed

theorem dropped_rows_are_silent_witness:
  "processData samplePlatform mixedRows = processData samplePlatform [rawSale (JStr ''001'') (JNum (Fin 1000))]
   \<and> processData samplePlatform mixedRows
       = Inr [buildEntry samplePlatform (rawSale (JStr ''001'') (JNum (Fin 1000)))]"
  using dropped_rows_are_silent [of samplePlatform mixedRows footerRow]
  by (simp add: sample_runs)

text \<open>
  C10 as stated fails on a single valid row without the revenue column: the input has
  a valid row, and normalization ends with an error instead of an output.
\<close>

theorem dropped_rows_counterexample:
  "\<not> ((\<exists>r\<in>set [noRevenueRow]. validRow r) \<longrightarrow>
        (\<exists>out. processData samplePlatform [noRevenueRow] = Inr out
               \<and> length out = length (filter validRow [noRevenueRow])))"
proof -
  have "validRow noRevenueRow"
    using sample_runs(9) by (simp split: if_splits)
  then show ?thesis by (simp add: sample_runs)
qed

end
